theory Spec2Isabelle
  imports Complex_Main "HOL-Library.Sublist"
begin

section \<open>Modal state (App.tsx)\<close>

text \<open>
  \<^verbatim>\<open>ModalState\<close> has the four boolean flags of \<^verbatim>\<open>initialModalState.modal\<close>; a
  \<^verbatim>\<open>keyof ModalState\<close> is one of their names. A \<^verbatim>\<open>React.ReactNode\<close> is kept as the few
  shapes the application stores in the modal: a text, the red error \<^verbatim>\<open>div\<close>, a \<^verbatim>\<open>div\<close>
  with inner HTML, and a bullet list of (heading, body) items.
\<close>

datatype modal_key = Briefing | Trend | Insights | Predictive

record ModalState =
  briefing :: bool
  trend :: bool
  insights :: bool
  predictive :: bool

datatype react_node =
    Text string
  | ErrorDiv string
  | InnerHtml string
  | BulletList "(string \<times> string) list"

record modal_state =
  modal :: ModalState
  content :: react_node
  isLoading :: bool

datatype ModalAction =
    OPEN_MODAL modal_key "react_node option"
  | CLOSE_MODAL
  | SET_LOADING bool
  | SET_CONTENT react_node

definition initialModalState :: modal_state where
  "initialModalState =
     \<lparr> modal = \<lparr> briefing = False, trend = False, insights = False, predictive = False \<rparr>,
       content = Text [],
       isLoading = False \<rparr>"

text \<open>The computed property \<^verbatim>\<open>[action.payload.modal]: true\<close>.\<close>

fun set_flag :: "modal_key \<Rightarrow> ModalState \<Rightarrow> ModalState" where
  "set_flag Briefing m = m\<lparr>briefing := True\<rparr>"
| "set_flag Trend m = m\<lparr>trend := True\<rparr>"
| "set_flag Insights m = m\<lparr>insights := True\<rparr>"
| "set_flag Predictive m = m\<lparr>predictive := True\<rparr>"

text \<open>\<^verbatim>\<open>action.payload.content || ''\<close>: a missing or empty content becomes the empty text.\<close>

fun content_or_empty :: "react_node option \<Rightarrow> react_node" where
  "content_or_empty None = Text []"
| "content_or_empty (Some (Text [])) = Text []"
| "content_or_empty (Some n) = n"

fun modalReducer :: "modal_state \<Rightarrow> ModalAction \<Rightarrow> modal_state" where
  "modalReducer state (OPEN_MODAL k c) =
     state\<lparr> modal := set_flag k (modal initialModalState),
            isLoading := True,
            content := content_or_empty c \<rparr>"
| "modalReducer state CLOSE_MODAL = state\<lparr> modal := modal initialModalState \<rparr>"
| "modalReducer state (SET_LOADING b) = state\<lparr> isLoading := b \<rparr>"
| "modalReducer state (SET_CONTENT n) = state\<lparr> content := n, isLoading := False \<rparr>"

text \<open>The number of flags that are set, and the state after a run of dispatched actions.\<close>

definition open_count :: "ModalState \<Rightarrow> nat" where
  "open_count m = length (filter id [briefing m, trend m, insights m, predictive m])"

definition dispatch_all :: "ModalAction list \<Rightarrow> modal_state" where
  "dispatch_all acts = foldl modalReducer initialModalState acts"

section \<open>JavaScript numbers (geminiService.ts)\<close>

text \<open>
  A JavaScript number is \<^verbatim>\<open>NaN\<close>, one of the two infinities, or a finite value. Finite
  doubles are idealised as the real numbers they denote and every operation on them is
  exact (no rounding, no signed zero); the special values follow IEEE 754 as far as the
  operators of \<^verbatim>\<open>haversineDistance\<close> need them.
\<close>

datatype jsnum = NaN | PInf | NInf | Fin real

fun isNaN :: "jsnum \<Rightarrow> bool" where
  "isNaN NaN = True"
| "isNaN _ = False"

fun js_neg :: "jsnum \<Rightarrow> jsnum" where
  "js_neg NaN = NaN"
| "js_neg PInf = NInf"
| "js_neg NInf = PInf"
| "js_neg (Fin x) = Fin (- x)"

fun js_add :: "jsnum \<Rightarrow> jsnum \<Rightarrow> jsnum" where
  "js_add (Fin x) (Fin y) = Fin (x + y)"
| "js_add NaN _ = NaN"
| "js_add _ NaN = NaN"
| "js_add PInf NInf = NaN"
| "js_add NInf PInf = NaN"
| "js_add PInf _ = PInf"
| "js_add _ PInf = PInf"
| "js_add NInf _ = NInf"
| "js_add _ NInf = NInf"

definition js_sub :: "jsnum \<Rightarrow> jsnum \<Rightarrow> jsnum" where
  "js_sub a b = js_add a (js_neg b)"

text \<open>An infinity times (or over) a finite factor: the sign of the factor decides, zero gives \<^verbatim>\<open>NaN\<close>.\<close>

definition inf_scaled :: "jsnum \<Rightarrow> real \<Rightarrow> jsnum" where
  "inf_scaled i x = (if x = 0 then NaN else if 0 < x then i else js_neg i)"

fun js_mul :: "jsnum \<Rightarrow> jsnum \<Rightarrow> jsnum" where
  "js_mul (Fin x) (Fin y) = Fin (x * y)"
| "js_mul NaN _ = NaN"
| "js_mul _ NaN = NaN"
| "js_mul (Fin x) i = inf_scaled i x"
| "js_mul i (Fin y) = inf_scaled i y"
| "js_mul PInf i = i"
| "js_mul NInf i = js_neg i"

fun js_div :: "jsnum \<Rightarrow> jsnum \<Rightarrow> jsnum" where
  "js_div (Fin x) (Fin y) = (if y = 0 then inf_scaled PInf x else Fin (x / y))"
| "js_div NaN _ = NaN"
| "js_div _ NaN = NaN"
| "js_div (Fin x) _ = Fin 0"
| "js_div i (Fin y) = (if 0 \<le> y then i else js_neg i)"
| "js_div _ _ = NaN"

fun js_sin :: "jsnum \<Rightarrow> jsnum" where
  "js_sin (Fin x) = Fin (sin x)"
| "js_sin _ = NaN"

fun js_cos :: "jsnum \<Rightarrow> jsnum" where
  "js_cos (Fin x) = Fin (cos x)"
| "js_cos _ = NaN"

fun js_sqrt :: "jsnum \<Rightarrow> jsnum" where
  "js_sqrt (Fin x) = (if x < 0 then NaN else Fin (sqrt x))"
| "js_sqrt PInf = PInf"
| "js_sqrt _ = NaN"

definition real_atan2 :: "real \<Rightarrow> real \<Rightarrow> real" where
  "real_atan2 y x =
     (if 0 < x then arctan (y / x)
      else if x < 0 then (if 0 \<le> y then arctan (y / x) + pi else arctan (y / x) - pi)
      else if 0 < y then pi / 2 else if y < 0 then - pi / 2 else 0)"

fun js_atan2 :: "jsnum \<Rightarrow> jsnum \<Rightarrow> jsnum" where
  "js_atan2 (Fin y) (Fin x) = Fin (real_atan2 y x)"
| "js_atan2 NaN _ = NaN"
| "js_atan2 _ NaN = NaN"
| "js_atan2 (Fin y) PInf = Fin 0"
| "js_atan2 (Fin y) NInf = Fin (if 0 \<le> y then pi else - pi)"
| "js_atan2 PInf (Fin x) = Fin (pi / 2)"
| "js_atan2 NInf (Fin x) = Fin (- pi / 2)"
| "js_atan2 PInf PInf = Fin (pi / 4)"
| "js_atan2 PInf NInf = Fin (3 * pi / 4)"
| "js_atan2 NInf PInf = Fin (- pi / 4)"
| "js_atan2 NInf NInf = Fin (- 3 * pi / 4)"

text \<open>The comparison \<^verbatim>\<open><=\<close>: false as soon as one side is \<^verbatim>\<open>NaN\<close>.\<close>

fun js_le :: "jsnum \<Rightarrow> jsnum \<Rightarrow> bool" where
  "js_le (Fin x) (Fin y) = (x \<le> y)"
| "js_le NaN _ = False"
| "js_le _ NaN = False"
| "js_le NInf _ = True"
| "js_le _ PInf = True"
| "js_le _ _ = False"

definition haversineDistance :: "jsnum \<Rightarrow> jsnum \<Rightarrow> jsnum \<Rightarrow> jsnum \<Rightarrow> jsnum" where
  "haversineDistance lat1 lon1 lat2 lon2 =
     (let R = Fin 6371;
          dLat = js_div (js_mul (js_sub lat2 lat1) (Fin pi)) (Fin 180);
          dLon = js_div (js_mul (js_sub lon2 lon1) (Fin pi)) (Fin 180);
          a = js_add
                (js_mul (js_sin (js_div dLat (Fin 2))) (js_sin (js_div dLat (Fin 2))))
                (js_mul
                  (js_mul
                    (js_mul (js_cos (js_div (js_mul lat1 (Fin pi)) (Fin 180)))
                            (js_cos (js_div (js_mul lat2 (Fin pi)) (Fin 180))))
                    (js_sin (js_div dLon (Fin 2))))
                  (js_sin (js_div dLon (Fin 2))));
          c = js_mul (Fin 2) (js_atan2 (js_sqrt a) (js_sqrt (js_sub (Fin 1) a)))
      in js_mul R c)"

subsection \<open>Characters and \<^verbatim>\<open>parseFloat\<close>\<close>

text \<open>
  Strings are lists of 8-bit code units. The white space of \<^verbatim>\<open>trim\<close>, of \<^verbatim>\<open>\s\<close> and of
  \<^verbatim>\<open>parseFloat\<close> is, in that range, tab, line feed, vertical tab, form feed, carriage
  return, space and the no-break space; \<^verbatim>\<open>\w\<close> is an ASCII letter, a digit or the underscore.
\<close>

definition is_space :: "char \<Rightarrow> bool" where
  "is_space c = (c \<in> set [CHR 0x09, CHR 0x0A, CHR 0x0B, CHR 0x0C, CHR 0x0D, CHR 0x20, CHR 0xA0])"

definition is_digit :: "char \<Rightarrow> bool" where
  "is_digit c = (c \<in> set ''0123456789'')"

definition is_word :: "char \<Rightarrow> bool" where
  "is_word c = (c \<in> set ''abcdefghijklmnopqrstuvwxyzABCDEFGHIJKLMNOPQRSTUVWXYZ0123456789_'')"

definition digit_val :: "char \<Rightarrow> nat" where
  "digit_val c = of_char c - 48"

text \<open>The value of a run of decimal digits, most significant first.\<close>

definition digits_val :: "string \<Rightarrow> nat" where
  "digits_val ds = foldl (\<lambda>n c. 10 * n + digit_val c) 0 ds"

text \<open>\<^verbatim>\<open>String.prototype.trim\<close>.\<close>

definition trim :: "string \<Rightarrow> string" where
  "trim s = rev (dropWhile is_space (rev (dropWhile is_space s)))"

text \<open>
  The exponent part \<^verbatim>\<open>e\<close>, optional sign, digits: absent (exponent 0) unless at least one
  digit follows.
\<close>

definition exponent_part :: "string \<Rightarrow> int" where
  "exponent_part r =
     (case r of
        [] \<Rightarrow> 0
      | e # r1 \<Rightarrow>
          if e = CHR ''e'' \<or> e = CHR ''E'' then
            (case r1 of
               [] \<Rightarrow> 0
             | sg # r2 \<Rightarrow>
                 if sg = CHR ''-'' then
                   (if takeWhile is_digit r2 = [] then 0 else - int (digits_val (takeWhile is_digit r2)))
                 else if sg = CHR ''+'' then int (digits_val (takeWhile is_digit r2))
                 else int (digits_val (takeWhile is_digit r1)))
          else 0)"

text \<open>
  A finite decimal value becomes a number; one that lies at or beyond the rounding
  boundary of the largest double becomes an infinity, as the conversion to a double does.
\<close>

definition to_double :: "real \<Rightarrow> jsnum" where
  "to_double x =
     (if 2 ^ 1024 - 2 ^ 970 \<le> x then PInf
      else if x \<le> - (2 ^ 1024 - 2 ^ 970) then NInf
      else Fin x)"

definition scale10 :: "real \<Rightarrow> int \<Rightarrow> real" where
  "scale10 x e = (if 0 \<le> e then x * 10 ^ nat e else x / 10 ^ nat (- e))"

text \<open>
  \<^verbatim>\<open>parseFloat\<close>: leading white space is skipped, then the longest prefix that is a
  decimal literal (sign, \<^verbatim>\<open>Infinity\<close> or digits with an optional fraction and exponent) is
  converted; without such a prefix the result is \<^verbatim>\<open>NaN\<close>.
\<close>

definition parseFloat :: "string \<Rightarrow> jsnum" where
  "parseFloat s =
     (let t = dropWhile is_space s;
          neg = (t \<noteq> [] \<and> hd t = CHR ''-'');
          u = (if t \<noteq> [] \<and> (hd t = CHR ''-'' \<or> hd t = CHR ''+'') then tl t else t);
          ip = takeWhile is_digit u;
          r1 = dropWhile is_digit u;
          dot = (r1 \<noteq> [] \<and> hd r1 = CHR ''.'');
          fp = (if dot then takeWhile is_digit (tl r1) else []);
          r2 = (if dot then dropWhile is_digit (tl r1) else r1)
      in if prefix ''Infinity'' u then (if neg then NInf else PInf)
         else if ip = [] \<and> fp = [] then NaN
         else
           (let m = scale10 (real (digits_val (ip @ fp))) (exponent_part r2 - int (length fp))
            in to_double (if neg then - m else m)))"

section \<open>Dates: the parts of \<^verbatim>\<open>moment\<close> the service uses\<close>

text \<open>
  A moment is invalid or an instant, counted in milliseconds since the epoch. The local
  time zone is taken to be UTC, so calendar fields are read off the instant directly.
  Parsing covers the shapes the police API delivers: \<^verbatim>\<open>YYYY-MM\<close> for the month of a
  crime, and \<^verbatim>\<open>YYYY-MM-DD\<close> optionally followed by \<^verbatim>\<open>T\<close> or a space, a clock
  \<^verbatim>\<open>HH:mm[:ss[.fff]]\<close> and an offset (\<^verbatim>\<open>Z\<close>, \<^verbatim>\<open>+HH:mm\<close>, \<^verbatim>\<open>+HHmm\<close>) for the time of a
  stop and search. Every other string is an invalid moment here.
\<close>

datatype moment = Invalid | At int

definition isLeapYear :: "int \<Rightarrow> bool" where
  "isLeapYear y = ((y mod 4 = 0 \<and> y mod 100 \<noteq> 0) \<or> y mod 400 = 0)"

text \<open>\<^verbatim>\<open>daysInMonth(year, month)\<close> with the month counted from 0.\<close>

definition daysInMonth :: "int \<Rightarrow> int \<Rightarrow> int" where
  "daysInMonth y m = (if m = 1 then (if isLeapYear y then 29 else 28) else 31 - (m mod 7) mod 2)"

text \<open>Days since 1970-01-01 of a civil date (month from 1), and back.\<close>

definition days_from_civil :: "int \<Rightarrow> int \<Rightarrow> int \<Rightarrow> int" where
  "days_from_civil y m d =
     (let y' = (if m \<le> 2 then y - 1 else y);
          era = y' div 400;
          yoe = y' - era * 400;
          mp = (m + 9) mod 12;
          doy = (153 * mp + 2) div 5 + d - 1;
          doe = yoe * 365 + yoe div 4 - yoe div 100 + doy
      in era * 146097 + doe - 719468)"

definition civil_from_days :: "int \<Rightarrow> int \<times> int \<times> int" where
  "civil_from_days z =
     (let z' = z + 719468;
          era = z' div 146097;
          doe = z' - era * 146097;
          yoe = (doe - doe div 1460 + doe div 36524 - doe div 146096) div 365;
          doy = doe - (365 * yoe + yoe div 4 - yoe div 100);
          mp = (5 * doy + 2) div 153;
          d = doy - (153 * mp + 2) div 5 + 1;
          m = (if mp < 10 then mp + 3 else mp - 9);
          y = yoe + era * 400
      in (if m \<le> 2 then y + 1 else y, m, d))"

definition ms_per_day :: int where
  "ms_per_day = 86400000"

definition all_digits :: "string \<Rightarrow> bool" where
  "all_digits s = (s \<noteq> [] \<and> list_all is_digit s)"

text \<open>The clock \<^verbatim>\<open>HH:mm\<close>, \<^verbatim>\<open>HH:mm:ss\<close> or \<^verbatim>\<open>HH:mm:ss.f\<close> as milliseconds of the day.\<close>

definition parse_clock :: "string \<Rightarrow> int option" where
  "parse_clock t =
     (if length t \<ge> 5 \<and> all_digits (take 2 t) \<and> t ! 2 = CHR '':'' \<and> all_digits (take 2 (drop 3 t)) then
        (let h = int (digits_val (take 2 t));
             mi = int (digits_val (take 2 (drop 3 t)));
             r = drop 5 t
         in if 24 \<le> h \<or> 60 \<le> mi then None
            else if r = [] then Some ((h * 60 + mi) * 60000)
            else if length r \<ge> 3 \<and> hd r = CHR '':'' \<and> all_digits (take 2 (tl r)) then
              (let sec = int (digits_val (take 2 (tl r)));
                   f = drop 3 r
               in if 60 \<le> sec then None
                  else if f = [] then Some ((h * 60 + mi) * 60000 + sec * 1000)
                  else if hd f = CHR ''.'' \<and> all_digits (tl f) then
                    Some ((h * 60 + mi) * 60000 + sec * 1000
                          + int (digits_val (take 3 (tl f @ ''00''))))
                  else None)
            else None)
      else None)"

text \<open>The offset from UTC in minutes; a time without offset is local time.\<close>

definition parse_offset :: "string \<Rightarrow> int option" where
  "parse_offset z =
     (if z = [] \<or> z = ''Z'' then Some 0
      else if hd z = CHR ''+'' \<or> hd z = CHR ''-'' then
        (let hm = (if length z = 6 \<and> z ! 3 = CHR '':'' then take 2 (tl z) @ drop 4 z else tl z)
         in if length hm = 4 \<and> all_digits hm then
              (let mins = int (digits_val (take 2 hm)) * 60 + int (digits_val (drop 2 hm))
               in Some (if hd z = CHR ''-'' then - mins else mins))
            else None)
      else None)"

definition is_clock_char :: "char \<Rightarrow> bool" where
  "is_clock_char c = (is_digit c \<or> c = CHR '':'' \<or> c = CHR ''.'')"

text \<open>\<^verbatim>\<open>moment(string)\<close>.\<close>

definition moment_iso :: "string \<Rightarrow> moment" where
  "moment_iso s =
     (if length s \<ge> 7 \<and> all_digits (take 4 s) \<and> s ! 4 = CHR ''-'' \<and> all_digits (take 2 (drop 5 s)) then
        (let y = int (digits_val (take 4 s));
             m = int (digits_val (take 2 (drop 5 s)));
             r = drop 7 s
         in if m < 1 \<or> 12 < m then Invalid
            else if r = [] then At (days_from_civil y m 1 * ms_per_day)
            else if length r \<ge> 3 \<and> hd r = CHR ''-'' \<and> all_digits (take 2 (tl r)) then
              (let d = int (digits_val (take 2 (tl r)));
                   r2 = drop 3 r
               in if d < 1 \<or> daysInMonth y (m - 1) < d then Invalid
                  else if r2 = [] then At (days_from_civil y m d * ms_per_day)
                  else if hd r2 = CHR ''T'' \<or> hd r2 = CHR '' '' then
                    (case (parse_clock (takeWhile is_clock_char (tl r2)),
                           parse_offset (dropWhile is_clock_char (tl r2))) of
                       (Some tod, Some off) \<Rightarrow>
                         At (days_from_civil y m d * ms_per_day + tod - off * 60000)
                     | _ \<Rightarrow> Invalid)
                  else Invalid)
            else Invalid)
      else Invalid)"

text \<open>
  \<^verbatim>\<open>moment(string, 'YYYY-MM')\<close>: year and month are read from the start of the string,
  what follows them is ignored.
\<close>

definition moment_YYYY_MM :: "string \<Rightarrow> moment" where
  "moment_YYYY_MM s =
     (if length s \<ge> 7 \<and> all_digits (take 4 s) \<and> s ! 4 = CHR ''-'' \<and> all_digits (take 2 (drop 5 s)) then
        (let y = int (digits_val (take 4 s));
             m = int (digits_val (take 2 (drop 5 s)))
         in if m < 1 \<or> 12 < m then Invalid else At (days_from_civil y m 1 * ms_per_day))
      else Invalid)"

text \<open>
  \<^verbatim>\<open>add(n, 'month')\<close> and \<^verbatim>\<open>subtract(n, 'month')\<close>: the month index moves by \<^verbatim>\<open>n\<close>, the day
  of the month is clamped to the length of the new month, the time of day stays.
\<close>

definition add_months :: "int \<Rightarrow> moment \<Rightarrow> moment" where
  "add_months n mo =
     (case mo of
        Invalid \<Rightarrow> Invalid
      | At t \<Rightarrow>
          (case civil_from_days (t div ms_per_day) of
             (y, m, d) \<Rightarrow>
               (let mi = (m - 1) + n;
                    y' = y + mi div 12;
                    m' = mi mod 12;
                    d' = min d (daysInMonth y' m')
                in At (days_from_civil y' (m' + 1) d' * ms_per_day + t mod ms_per_day))))"

definition subtract_months :: "int \<Rightarrow> moment \<Rightarrow> moment" where
  "subtract_months n mo = add_months (- n) mo"

fun isValid :: "moment \<Rightarrow> bool" where
  "isValid Invalid = False"
| "isValid (At t) = True"

fun valueOf :: "moment \<Rightarrow> int" where
  "valueOf (At t) = t"
| "valueOf Invalid = 0"

definition isBefore :: "moment \<Rightarrow> moment \<Rightarrow> bool" where
  "isBefore a b = (isValid a \<and> isValid b \<and> valueOf a < valueOf b)"

definition isAfter :: "moment \<Rightarrow> moment \<Rightarrow> bool" where
  "isAfter a b = (isValid a \<and> isValid b \<and> valueOf a > valueOf b)"

text \<open>\<^verbatim>\<open>m.isBetween(from, to, undefined, '[]')\<close>: both ends inclusive.\<close>

definition isBetween :: "moment \<Rightarrow> moment \<Rightarrow> moment \<Rightarrow> bool" where
  "isBetween m from to =
     (if \<not> (isValid m \<and> isValid from \<and> isValid to) then False
      else \<not> isBefore m from \<and> \<not> isAfter m to)"

subsection \<open>Formatting\<close>

fun show_nat :: "nat \<Rightarrow> string" where
  "show_nat n = (if n < 10 then [''0123456789'' ! n] else show_nat (n div 10) @ [''0123456789'' ! (n mod 10)])"

definition zeroFill :: "int \<Rightarrow> nat \<Rightarrow> string" where
  "zeroFill n k =
     (let a = show_nat (nat \<bar>n\<bar>)
      in (if 0 \<le> n then [] else ''-'') @ replicate (k - length a) CHR ''0'' @ a)"

definition month_name :: "int \<Rightarrow> string" where
  "month_name m =
     [''January'', ''February'', ''March'', ''April'', ''May'', ''June'', ''July'',
      ''August'', ''September'', ''October'', ''November'', ''December''] ! nat (m - 1)"

text \<open>\<^verbatim>\<open>format('MMMM YYYY')\<close>, \<^verbatim>\<open>format('YYYY-MM')\<close> and \<^verbatim>\<open>format('YYYY-MM-DD HH:mm')\<close>.\<close>

definition format_MMMM_YYYY :: "moment \<Rightarrow> string" where
  "format_MMMM_YYYY mo =
     (case mo of
        Invalid \<Rightarrow> ''Invalid date''
      | At t \<Rightarrow> (case civil_from_days (t div ms_per_day) of
                  (y, m, d) \<Rightarrow> month_name m @ '' '' @ zeroFill y 4))"

definition format_YYYY_MM :: "moment \<Rightarrow> string" where
  "format_YYYY_MM mo =
     (case mo of
        Invalid \<Rightarrow> ''Invalid date''
      | At t \<Rightarrow> (case civil_from_days (t div ms_per_day) of
                  (y, m, d) \<Rightarrow> zeroFill y 4 @ ''-'' @ zeroFill m 2))"

definition format_YYYY_MM_DD_HH_mm :: "moment \<Rightarrow> string" where
  "format_YYYY_MM_DD_HH_mm mo =
     (case mo of
        Invalid \<Rightarrow> ''Invalid date''
      | At t \<Rightarrow> (case civil_from_days (t div ms_per_day) of
                  (y, m, d) \<Rightarrow>
                    zeroFill y 4 @ ''-'' @ zeroFill m 2 @ ''-'' @ zeroFill d 2 @ '' ''
                    @ zeroFill ((t mod ms_per_day) div 3600000) 2 @ '':''
                    @ zeroFill (((t mod ms_per_day) div 60000) mod 60) 2))"

text \<open>
  \<^verbatim>\<open>s.replace(/-/g, ' ').replace(/\b\w/g, l => l.toUpperCase())\<close>: hyphens become spaces,
  then every word character that starts a word is put in upper case.
\<close>

definition toUpperCase_char :: "char \<Rightarrow> char" where
  "toUpperCase_char c =
     (case map_of (zip ''abcdefghijklmnopqrstuvwxyz'' ''ABCDEFGHIJKLMNOPQRSTUVWXYZ'') c of
        Some u \<Rightarrow> u
      | None \<Rightarrow> c)"

fun capitalise_words :: "bool \<Rightarrow> string \<Rightarrow> string" where
  "capitalise_words prev [] = []"
| "capitalise_words prev (c # cs) =
     (if is_word c \<and> \<not> prev then toUpperCase_char c else c) # capitalise_words (is_word c) cs"

definition title_case :: "string \<Rightarrow> string" where
  "title_case s = capitalise_words False (map (\<lambda>c. if c = CHR ''-'' then CHR '' '' else c) s)"

section \<open>Records of the police API and the proximity filter\<close>

text \<open>
  Modelled from the spec: the declarations of \<^verbatim>\<open>Crime\<close>, \<^verbatim>\<open>StopSearch\<close> and their location
  are in \<^verbatim>\<open>types.ts\<close>, which is not among the sources. The records below have the fields of
  the spec's incident record and stop-and-search record that the service reads, under the
  names by which it reads them. Coordinates arrive as strings. A field that may be
  \<^verbatim>\<open>undefined\<close> or \<^verbatim>\<open>null\<close> at run time is an option; the \<^verbatim>\<open>outcome_status\<close> of a crime is kept
  as its \<^verbatim>\<open>category\<close>.
\<close>

record Street =
  street_id :: int
  name :: string

record Location =
  latitude :: "string option"
  longitude :: "string option"
  street :: "Street option"

record Crime =
  category :: string
  month :: string
  location :: "Location option"
  outcome_status :: "string option"

record StopSearch =
  datetime :: string
  ss_type :: string
  object_of_search :: "string option"
  outcome :: string
  ss_location :: "Location option"

definition proximityRadiusKm :: jsnum where
  "proximityRadiusKm = Fin 0.25"

text \<open>
  The guard at the head of each filter callback:
  \<^verbatim>\<open>if (!c.location?.latitude || !c.location?.longitude) return false;\<close> then both strings
  go through \<^verbatim>\<open>parseFloat\<close> and \<^verbatim>\<open>if (isNaN(cLat) || isNaN(cLng)) return false;\<close>.
  Only the third outcome carries coordinates on to \<^verbatim>\<open>haversineDistance\<close>.
\<close>

datatype guard_result = NoCoordinates | NotANumber | Parsed jsnum jsnum

definition coordinate_guard :: "Location option \<Rightarrow> guard_result" where
  "coordinate_guard l =
     (case l of
        None \<Rightarrow> NoCoordinates
      | Some loc \<Rightarrow>
          (case (latitude loc, longitude loc) of
             (Some la, Some lo) \<Rightarrow>
               if la = [] \<or> lo = [] then NoCoordinates
               else if isNaN (parseFloat la) \<or> isNaN (parseFloat lo) then NotANumber
               else Parsed (parseFloat la) (parseFloat lo)
           | _ \<Rightarrow> NoCoordinates))"

text \<open>
  The callback of \<^verbatim>\<open>allCrimes.filter\<close> (the same text in both briefing functions) and
  the callback of \<^verbatim>\<open>allStopSearches.filter\<close>.
\<close>

definition crime_is_nearby :: "jsnum \<Rightarrow> jsnum \<Rightarrow> moment \<Rightarrow> moment \<Rightarrow> Crime \<Rightarrow> bool" where
  "crime_is_nearby refLat refLng oneMonthBefore oneMonthAfter c =
     (case coordinate_guard (location c) of
        Parsed cLat cLng \<Rightarrow>
          js_le (haversineDistance refLat refLng cLat cLng) proximityRadiusKm
          \<and> isBetween (moment_iso (month c)) oneMonthBefore oneMonthAfter
      | _ \<Rightarrow> False)"

definition stop_is_nearby :: "jsnum \<Rightarrow> jsnum \<Rightarrow> moment \<Rightarrow> moment \<Rightarrow> StopSearch \<Rightarrow> bool" where
  "stop_is_nearby refLat refLng oneMonthBefore oneMonthAfter ss =
     (case coordinate_guard (ss_location ss) of
        Parsed ssLat ssLng \<Rightarrow>
          js_le (haversineDistance refLat refLng ssLat ssLng) proximityRadiusKm
          \<and> isBetween (moment_iso (datetime ss)) oneMonthBefore oneMonthAfter
      | _ \<Rightarrow> False)"

text \<open>
  The filter stage of \<^verbatim>\<open>nearbyCrimes\<close> and \<^verbatim>\<open>nearbyStopSearches\<close>, for a reference point and
  a reference moment: the window is one month before to one month after.
\<close>

definition nearbyCrimes_filter :: "jsnum \<Rightarrow> jsnum \<Rightarrow> moment \<Rightarrow> Crime list \<Rightarrow> Crime list" where
  "nearbyCrimes_filter refLat refLng targetMoment allCrimes =
     (let oneMonthBefore = subtract_months 1 targetMoment;
          oneMonthAfter = add_months 1 targetMoment
      in filter (crime_is_nearby refLat refLng oneMonthBefore oneMonthAfter) allCrimes)"

definition nearbyStopSearches_filter ::
  "jsnum \<Rightarrow> jsnum \<Rightarrow> moment \<Rightarrow> StopSearch list \<Rightarrow> StopSearch list" where
  "nearbyStopSearches_filter refLat refLng targetMoment allStopSearches =
     (let oneMonthBefore = subtract_months 1 targetMoment;
          oneMonthAfter = add_months 1 targetMoment
      in filter (stop_is_nearby refLat refLng oneMonthBefore oneMonthAfter) allStopSearches)"

text \<open>The objects the \<^verbatim>\<open>map\<close> stage builds for the prompt.\<close>

record crime_summary =
  cs_type :: string
  cs_date :: string
  cs_street :: string

record stop_summary =
  st_type :: string
  st_date :: string
  st_objectOfSearch :: string
  st_street :: string

text \<open>\<^verbatim>\<open>l?.street?.name ?? 'Unknown Street'\<close> and \<^verbatim>\<open>v || 'N/A'\<close>.\<close>

definition street_name_or_unknown :: "Location option \<Rightarrow> string" where
  "street_name_or_unknown l =
     (case l of
        None \<Rightarrow> ''Unknown Street''
      | Some loc \<Rightarrow> (case street loc of None \<Rightarrow> ''Unknown Street'' | Some st \<Rightarrow> name st))"

definition or_NA :: "string option \<Rightarrow> string" where
  "or_NA v = (case v of None \<Rightarrow> ''N/A'' | Some x \<Rightarrow> if x = [] then ''N/A'' else x)"

definition summarise_crime :: "Crime \<Rightarrow> crime_summary" where
  "summarise_crime c =
     \<lparr> cs_type = title_case (category c),
       cs_date = format_MMMM_YYYY (moment_iso (month c)),
       cs_street = street_name_or_unknown (location c) \<rparr>"

definition summarise_stop :: "StopSearch \<Rightarrow> stop_summary" where
  "summarise_stop ss =
     \<lparr> st_type = or_NA (Some (ss_type ss)),
       st_date = format_YYYY_MM_DD_HH_mm (moment_iso (datetime ss)),
       st_objectOfSearch = or_NA (object_of_search ss),
       st_street = street_name_or_unknown (ss_location ss) \<rparr>"

definition nearbyCrimes :: "jsnum \<Rightarrow> jsnum \<Rightarrow> moment \<Rightarrow> Crime list \<Rightarrow> crime_summary list" where
  "nearbyCrimes refLat refLng targetMoment allCrimes =
     map summarise_crime (nearbyCrimes_filter refLat refLng targetMoment allCrimes)"

definition nearbyStopSearches ::
  "jsnum \<Rightarrow> jsnum \<Rightarrow> moment \<Rightarrow> StopSearch list \<Rightarrow> stop_summary list" where
  "nearbyStopSearches refLat refLng targetMoment allStopSearches =
     map summarise_stop (nearbyStopSearches_filter refLat refLng targetMoment allStopSearches)"

text \<open>
  What the prompt shows of a list:
  \<^verbatim>\<open>xs.length > 0 ? JSON.stringify(xs.slice(0, 5), null, 2) : 'No significant ...'\<close>.
\<close>

definition prompt_sample :: "'a list \<Rightarrow> 'a list option" where
  "prompt_sample xs = (if length xs > 0 then Some (take 5 xs) else None)"

section \<open>\<^verbatim>\<open>JSON.parse\<close>\<close>

text \<open>
  A parsed JSON value. A string is a list of UTF-16 code units, since a \<^verbatim>\<open>\u\<close> escape may
  denote any of them; an object is kept as its members in the order of the text.
\<close>

datatype json =
    JNull
  | JBool bool
  | JNum jsnum
  | JStr "nat list"
  | JArr "json list"
  | JObj "(nat list \<times> json) list"

datatype 'a parsed = OutOfFuel | SyntaxError | Ok 'a string

definition is_json_ws :: "char \<Rightarrow> bool" where
  "is_json_ws c = (c \<in> set [CHR 0x09, CHR 0x0A, CHR 0x0D, CHR 0x20])"

definition skip_ws :: "string \<Rightarrow> string" where
  "skip_ws s = dropWhile is_json_ws s"

definition hex_val :: "char \<Rightarrow> nat option" where
  "hex_val c = map_of (zip ''0123456789abcdefABCDEF'' ([0 ..< 16] @ [10 ..< 16])) c"

definition escape_code :: "char \<Rightarrow> nat option" where
  "escape_code c =
     map_of [(CHR 0x22, 34), (CHR 0x5C, 92), (CHR ''/'', 47), (CHR ''b'', 8),
             (CHR ''f'', 12), (CHR ''n'', 10), (CHR ''r'', 13), (CHR ''t'', 9)] c"

text \<open>The characters of a string after its opening quote, up to the closing quote.\<close>

fun parse_string_body :: "string \<Rightarrow> nat list \<Rightarrow> (nat list \<times> string) option" where
  "parse_string_body [] acc = None"
| "parse_string_body (c # r) acc =
     (if c = CHR 0x22 then Some (rev acc, r)
      else if c = CHR 0x5C then
        (case r of
           [] \<Rightarrow> None
         | e # r' \<Rightarrow>
             if e = CHR ''u'' then
               (case map hex_val (take 4 r') of
                  [Some h1, Some h2, Some h3, Some h4] \<Rightarrow>
                    parse_string_body (drop 4 r') ((((h1 * 16 + h2) * 16 + h3) * 16 + h4) # acc)
                | _ \<Rightarrow> None)
             else
               (case escape_code e of
                  None \<Rightarrow> None
                | Some k \<Rightarrow> parse_string_body r' (k # acc)))
      else if of_char c < (32 :: nat) then None
      else parse_string_body r (of_char c # acc))"

text \<open>
  A number: an optional minus, an integer part without superfluous leading zero, an
  optional fraction and an optional exponent, each with at least one digit.
\<close>

definition span_digits :: "string \<Rightarrow> string \<times> string" where
  "span_digits s = (takeWhile is_digit s, dropWhile is_digit s)"

definition number_value :: "bool \<Rightarrow> string \<Rightarrow> string \<Rightarrow> int \<Rightarrow> jsnum" where
  "number_value neg ip fp e =
     (let m = scale10 (real (digits_val (ip @ fp))) (e - int (length fp))
      in to_double (if neg then - m else m))"

definition number_exponent :: "bool \<Rightarrow> string \<Rightarrow> string \<Rightarrow> string \<Rightarrow> (jsnum \<times> string) option" where
  "number_exponent neg ip fp r =
     (if r \<noteq> [] \<and> (hd r = CHR ''e'' \<or> hd r = CHR ''E'') then
        (let r3 = tl r;
             eneg = (r3 \<noteq> [] \<and> hd r3 = CHR ''-'');
             r4 = (if r3 \<noteq> [] \<and> (hd r3 = CHR ''-'' \<or> hd r3 = CHR ''+'') then tl r3 else r3)
         in case span_digits r4 of
              (ed, r5) \<Rightarrow>
                if ed = [] then None
                else Some (number_value neg ip fp
                             (if eneg then - int (digits_val ed) else int (digits_val ed)), r5))
      else Some (number_value neg ip fp 0, r))"

definition number_fraction :: "bool \<Rightarrow> string \<Rightarrow> string \<Rightarrow> (jsnum \<times> string) option" where
  "number_fraction neg ip r =
     (if r \<noteq> [] \<and> hd r = CHR ''.'' then
        (case span_digits (tl r) of
           (fp, r2) \<Rightarrow> if fp = [] then None else number_exponent neg ip fp r2)
      else number_exponent neg ip [] r)"

definition parse_number :: "string \<Rightarrow> (jsnum \<times> string) option" where
  "parse_number s =
     (let neg = (s \<noteq> [] \<and> hd s = CHR ''-'')
      in case span_digits (if neg then tl s else s) of
           (ip, r1) \<Rightarrow>
             if ip = [] \<or> (length ip > 1 \<and> hd ip = CHR ''0'') then None
             else number_fraction neg ip r1)"

definition map_parsed :: "('a \<Rightarrow> 'b) \<Rightarrow> 'a parsed \<Rightarrow> 'b parsed" where
  "map_parsed f p = (case p of OutOfFuel \<Rightarrow> OutOfFuel | SyntaxError \<Rightarrow> SyntaxError | Ok v r \<Rightarrow> Ok (f v) r)"

text \<open>
  Recursive descent. The first argument bounds the number of nested calls;
  \<open>JSON_parse\<close> below supplies a bound that is never reached.
\<close>

fun parse_value :: "nat \<Rightarrow> string \<Rightarrow> json parsed"
  and parse_elements :: "nat \<Rightarrow> string \<Rightarrow> (json list) parsed"
  and parse_members :: "nat \<Rightarrow> string \<Rightarrow> ((nat list \<times> json) list) parsed"
where
  "parse_value 0 s = OutOfFuel"
| "parse_value (Suc n) s =
     (case s of
        [] \<Rightarrow> SyntaxError
      | c # r \<Rightarrow>
          if c = CHR ''['' then
            (if skip_ws r \<noteq> [] \<and> hd (skip_ws r) = CHR '']'' then Ok (JArr []) (tl (skip_ws r))
             else map_parsed JArr (parse_elements n (skip_ws r)))
          else if c = CHR ''{'' then
            (if skip_ws r \<noteq> [] \<and> hd (skip_ws r) = CHR ''}'' then Ok (JObj []) (tl (skip_ws r))
             else map_parsed JObj (parse_members n (skip_ws r)))
          else if c = CHR 0x22 then
            (case parse_string_body r [] of
               None \<Rightarrow> SyntaxError
             | Some (str, r') \<Rightarrow> Ok (JStr str) r')
          else if prefix ''true'' s then Ok (JBool True) (drop 4 s)
          else if prefix ''false'' s then Ok (JBool False) (drop 5 s)
          else if prefix ''null'' s then Ok JNull (drop 4 s)
          else
            (case parse_number s of
               None \<Rightarrow> SyntaxError
             | Some (x, r') \<Rightarrow> Ok (JNum x) r'))"
| "parse_elements 0 s = OutOfFuel"
| "parse_elements (Suc n) s =
     (case parse_value n s of
        OutOfFuel \<Rightarrow> OutOfFuel
      | SyntaxError \<Rightarrow> SyntaxError
      | Ok v r \<Rightarrow>
          (case skip_ws r of
             [] \<Rightarrow> SyntaxError
           | c # r' \<Rightarrow>
               if c = CHR '']'' then Ok [v] r'
               else if c = CHR '','' then map_parsed (\<lambda>vs. v # vs) (parse_elements n (skip_ws r'))
               else SyntaxError))"
| "parse_members 0 s = OutOfFuel"
| "parse_members (Suc n) s =
     (case s of
        [] \<Rightarrow> SyntaxError
      | q # r \<Rightarrow>
          if q \<noteq> CHR 0x22 then SyntaxError
          else
            (case parse_string_body r [] of
               None \<Rightarrow> SyntaxError
             | Some (k, r1) \<Rightarrow>
                 (case skip_ws r1 of
                    [] \<Rightarrow> SyntaxError
                  | c # r2 \<Rightarrow>
                      if c \<noteq> CHR '':'' then SyntaxError
                      else
                        (case parse_value n (skip_ws r2) of
                           OutOfFuel \<Rightarrow> OutOfFuel
                         | SyntaxError \<Rightarrow> SyntaxError
                         | Ok v r3 \<Rightarrow>
                             (case skip_ws r3 of
                                [] \<Rightarrow> SyntaxError
                              | d # r4 \<Rightarrow>
                                  if d = CHR ''}'' then Ok [(k, v)] r4
                                  else if d = CHR '','' then
                                    map_parsed (\<lambda>kvs. (k, v) # kvs) (parse_members n (skip_ws r4))
                                  else SyntaxError)))))"

definition json_strip :: "string \<Rightarrow> string" where
  "json_strip s = rev (skip_ws (rev (skip_ws s)))"

text \<open>\<^verbatim>\<open>JSON.parse(text)\<close>: \<open>None\<close> stands for the \<^verbatim>\<open>SyntaxError\<close> it throws.\<close>

definition JSON_parse :: "string \<Rightarrow> json option" where
  "JSON_parse s =
     (let t = json_strip s
      in case parse_value (2 * length t + 1) t of
           Ok v r \<Rightarrow> if r = [] then Some v else None
         | _ \<Rightarrow> None)"

section \<open>\<^verbatim>\<open>parseJsonResponse\<close>\<close>

text \<open>
  The fence expression \<^verbatim>\<open>/^```(\w*)?\s*\n?(.*?)\n?\s*```$/s\<close> is matched by backtracking.
  Each piece maps the rest of the input to the rests it can leave, in the order in which
  the matcher tries them: a greedy piece tries the longest match first, the lazy group the
  shortest. The optional first group leaves the same rests, in the same order, as
  \<^verbatim>\<open>\w*\<close> alone.
\<close>

definition lit :: "string \<Rightarrow> string \<Rightarrow> string list" where
  "lit p s = (if prefix p s then [drop (length p) s] else [])"

fun star_greedy :: "(char \<Rightarrow> bool) \<Rightarrow> string \<Rightarrow> string list" where
  "star_greedy P [] = [[]]"
| "star_greedy P (c # s) = (if P c then star_greedy P s @ [c # s] else [c # s])"

definition opt_greedy :: "char \<Rightarrow> string \<Rightarrow> string list" where
  "opt_greedy c s = (if s \<noteq> [] \<and> hd s = c then [tl s, s] else [s])"

text \<open>The lazy group \<^verbatim>\<open>(.*?)\<close> under the flag \<^verbatim>\<open>s\<close>: captured text and rest, shortest first.\<close>

fun star_lazy_any :: "string \<Rightarrow> (string \<times> string) list" where
  "star_lazy_any [] = [([], [])]"
| "star_lazy_any (c # s) = ([], c # s) # map (\<lambda>(g, r). (c # g, r)) (star_lazy_any s)"

text \<open>The part \<^verbatim>\<open>\n?\s*```$\<close> after the lazy group: the ways it matches the whole rest.\<close>

definition fence_close :: "string \<Rightarrow> unit list" where
  "fence_close r =
     concat (map (\<lambda>r5.
       concat (map (\<lambda>r6.
         concat (map (\<lambda>r7. if r7 = [] then [()] else [])
           (lit ''```'' r6)))
         (star_greedy is_space r5)))
       (opt_greedy CHR 0x0A r))"

text \<open>Capture group 2 along every successful path, in the matcher's order.\<close>

definition fence_captures :: "string \<Rightarrow> string list" where
  "fence_captures t =
     concat (map (\<lambda>r0.
       concat (map (\<lambda>r1.
         concat (map (\<lambda>r2.
           concat (map (\<lambda>r3.
             concat (map (\<lambda>(g2, r4). map (\<lambda>_. g2) (fence_close r4))
               (star_lazy_any r3)))
             (opt_greedy CHR 0x0A r2)))
           (star_greedy is_space r1)))
         (star_greedy is_word r0)))
       (lit ''```'' t))"

text \<open>\<^verbatim>\<open>jsonStr.match(fenceRegex)\<close>, reduced to \<^verbatim>\<open>match[2]\<close> of the first successful path.\<close>

definition fence_match :: "string \<Rightarrow> string option" where
  "fence_match t = (case fence_captures t of [] \<Rightarrow> None | g # _ \<Rightarrow> Some g)"

datatype js_error = Error string | TypeError string | NonError string

text \<open>
  The first half of \<^verbatim>\<open>parseJsonResponse\<close>: the trimmed text, or the trimmed second group
  when the fence expression matches and that group is not empty.
\<close>

definition strip_fence :: "string \<Rightarrow> string" where
  "strip_fence text =
     (let jsonStr = trim text
      in case fence_match jsonStr of
           Some g \<Rightarrow> if g \<noteq> [] then trim g else jsonStr
         | None \<Rightarrow> jsonStr)"

definition parseJsonResponse :: "string \<Rightarrow> js_error + json" where
  "parseJsonResponse text =
     (case JSON_parse (strip_fence text) of
        Some v \<Rightarrow> Inr v
      | None \<Rightarrow> Inl (Error ''Failed to parse AI response as JSON.''))"

section \<open>The AI entry points\<close>

text \<open>
  A prompt is a fixed text with holes; the model keeps which template it is and the values
  put into its holes. A request is what \<^verbatim>\<open>ai.models.generateContent\<close> receives. The client
  answers a request with a response text or rejects it, possibly depending on the requests
  sent before; \<^verbatim>\<open>ai\<close> is \<^verbatim>\<open>null\<close> (\<open>None\<close>) when \<^verbatim>\<open>API_KEY\<close> is missing. Every entry point takes
  the list of requests sent so far and returns it, extended by the request it sends, next
  to the settled promise: \<open>Inl\<close> a rejection, \<open>Inr\<close> the value.
\<close>

record hotspot_row =
  h_type :: string
  h_date :: string
  h_street :: string
  h_latitude :: jsnum
  h_longitude :: jsnum

datatype prompt =
    IncidentBriefingPrompt string string string string
      "crime_summary list option" "stop_summary list option"
  | StopSearchBriefingPrompt string string string string string "crime_summary list option"
  | TrendSummaryPrompt "crime_summary list"
  | InsightsPrompt "crime_summary list"
  | HotspotsPrompt "hotspot_row list"

record request =
  model :: string
  contents :: prompt
  responseMimeType :: "string option"

type_synonym GoogleGenAI = "request list \<Rightarrow> request \<Rightarrow> js_error + string"

type_synonym 'a io = "request list \<Rightarrow> (js_error + 'a) \<times> request list"

text \<open>
  \<^verbatim>\<open>const ai = API_KEY ? new GoogleGenAI({ apiKey: API_KEY }) : null\<close>: an absent or
  empty key gives no client.
\<close>

definition ai_client :: "string option \<Rightarrow> (string \<Rightarrow> GoogleGenAI) \<Rightarrow> GoogleGenAI option" where
  "ai_client API_KEY connect =
     (case API_KEY of
        None \<Rightarrow> None
      | Some k \<Rightarrow> if k = [] then None else Some (connect k))"

definition generateContent :: "GoogleGenAI \<Rightarrow> request \<Rightarrow> string io" where
  "generateContent client req sent = (client sent req, sent @ [req])"

definition resolve :: "'a \<Rightarrow> 'a io" where
  "resolve v sent = (Inr v, sent)"

definition reject :: "js_error \<Rightarrow> 'a io" where
  "reject e sent = (Inl e, sent)"

text \<open>\<^verbatim>\<open>parseFloat\<close> of a field that may be missing: \<^verbatim>\<open>undefined\<close> and \<^verbatim>\<open>null\<close> give \<^verbatim>\<open>NaN\<close>.\<close>

definition parseFloat_field :: "string option \<Rightarrow> jsnum" where
  "parseFloat_field v = (case v of None \<Rightarrow> NaN | Some s \<Rightarrow> parseFloat s)"

definition undefined_property :: "string \<Rightarrow> js_error" where
  "undefined_property p =
     TypeError (''Cannot read properties of undefined (reading '' @ [CHR 0x27] @ p @ [CHR 0x27] @ '')'')"

definition unavailable :: string where
  "unavailable = ''AI service is not available (API key missing).''"

definition flash_model :: string where
  "flash_model = ''gemini-2.5-flash-preview-04-17''"

definition generateIncidentBriefing ::
  "GoogleGenAI option \<Rightarrow> Crime \<Rightarrow> Crime list \<Rightarrow> StopSearch list \<Rightarrow> string io" where
  "generateIncidentBriefing ai crime allCrimes allStopSearches =
     (case ai of
        None \<Rightarrow> resolve unavailable
      | Some client \<Rightarrow>
          (case location crime of
             None \<Rightarrow> reject (undefined_property ''latitude'')
           | Some loc \<Rightarrow>
               (let crimeLat = parseFloat_field (latitude loc);
                    crimeLng = parseFloat_field (longitude loc)
                in if isNaN crimeLat \<or> isNaN crimeLng
                   then resolve ''Briefing not available due to invalid location data.''
                   else
                     (let targetMoment = moment_YYYY_MM (month crime);
                          nearCrimes = nearbyCrimes crimeLat crimeLng targetMoment allCrimes;
                          nearStops = nearbyStopSearches crimeLat crimeLng targetMoment allStopSearches
                      in case street loc of
                           None \<Rightarrow> reject (undefined_property ''name'')
                         | Some st \<Rightarrow>
                             generateContent client
                               \<lparr> model = flash_model,
                                 contents = IncidentBriefingPrompt
                                   (title_case (category crime))
                                   (format_MMMM_YYYY (moment_iso (month crime)))
                                   (name st)
                                   (case outcome_status crime of
                                      None \<Rightarrow> ''No specific outcome''
                                    | Some oc \<Rightarrow> title_case oc)
                                   (prompt_sample nearCrimes)
                                   (prompt_sample nearStops),
                                 responseMimeType = None \<rparr>))))"

definition generateStopSearchBriefing ::
  "GoogleGenAI option \<Rightarrow> StopSearch \<Rightarrow> Crime list \<Rightarrow> StopSearch list \<Rightarrow> string io" where
  "generateStopSearchBriefing ai stopSearch allCrimes allStopSearches =
     (case ai of
        None \<Rightarrow> resolve unavailable
      | Some client \<Rightarrow>
          (case ss_location stopSearch of
             None \<Rightarrow> resolve ''Briefing not available: no location data for this incident.''
           | Some loc \<Rightarrow>
               (let incidentLat = parseFloat_field (latitude loc);
                    incidentLng = parseFloat_field (longitude loc)
                in if isNaN incidentLat \<or> isNaN incidentLng
                   then resolve ''Briefing not available due to invalid location data.''
                   else
                     (let targetMoment = moment_iso (datetime stopSearch);
                          nearCrimes = nearbyCrimes incidentLat incidentLng targetMoment allCrimes
                      in case street loc of
                           None \<Rightarrow> reject (undefined_property ''name'')
                         | Some st \<Rightarrow>
                             generateContent client
                               \<lparr> model = flash_model,
                                 contents = StopSearchBriefingPrompt
                                   (ss_type stopSearch)
                                   (format_YYYY_MM_DD_HH_mm (moment_iso (datetime stopSearch)))
                                   (name st)
                                   (or_NA (object_of_search stopSearch))
                                   (outcome stopSearch)
                                   (prompt_sample nearCrimes),
                                 responseMimeType = None \<rparr>))))"

definition summarizeCrimeTrends :: "GoogleGenAI option \<Rightarrow> Crime list \<Rightarrow> string io" where
  "summarizeCrimeTrends ai crimes =
     (case ai of
        None \<Rightarrow> resolve unavailable
      | Some client \<Rightarrow>
          if length crimes = 0 then resolve ''No crime data available to summarize.''
          else generateContent client
                 \<lparr> model = flash_model,
                   contents = TrendSummaryPrompt (map summarise_crime (take 100 crimes)),
                   responseMimeType = None \<rparr>)"

text \<open>\<^verbatim>\<open>return parseJsonResponse(response.text)\<close> after the awaited request.\<close>

definition then_parse :: "string io \<Rightarrow> json io" where
  "then_parse call sent =
     (case call sent of
        (Inl e, sent') \<Rightarrow> (Inl e, sent')
      | (Inr text, sent') \<Rightarrow> (parseJsonResponse text, sent'))"

definition generateCrimeInsights :: "GoogleGenAI option \<Rightarrow> Crime list \<Rightarrow> json io" where
  "generateCrimeInsights ai crimes =
     (case ai of
        None \<Rightarrow> resolve (JArr [])
      | Some client \<Rightarrow>
          if length crimes = 0 then resolve (JArr [])
          else then_parse (generateContent client
                 \<lparr> model = flash_model,
                   contents = InsightsPrompt (map summarise_crime (take 200 crimes)),
                   responseMimeType = Some ''application/json'' \<rparr>))"

text \<open>
  The rows for the hotspot prompt read \<^verbatim>\<open>crime.location.latitude\<close> without a guard, which
  throws on a crime without location.
\<close>

definition hotspot_row_of :: "Crime \<Rightarrow> js_error + hotspot_row" where
  "hotspot_row_of crime =
     (case location crime of
        None \<Rightarrow> Inl (undefined_property ''latitude'')
      | Some loc \<Rightarrow>
          Inr \<lparr> h_type = title_case (category crime),
                h_date = format_YYYY_MM (moment_iso (month crime)),
                h_street = street_name_or_unknown (location crime),
                h_latitude = parseFloat_field (latitude loc),
                h_longitude = parseFloat_field (longitude loc) \<rparr>)"

fun map_throwing :: "('a \<Rightarrow> js_error + 'b) \<Rightarrow> 'a list \<Rightarrow> js_error + 'b list" where
  "map_throwing f [] = Inr []"
| "map_throwing f (x # xs) =
     (case f x of
        Inl e \<Rightarrow> Inl e
      | Inr y \<Rightarrow> (case map_throwing f xs of Inl e \<Rightarrow> Inl e | Inr ys \<Rightarrow> Inr (y # ys)))"

definition generatePredictiveHotspots :: "GoogleGenAI option \<Rightarrow> Crime list \<Rightarrow> json io" where
  "generatePredictiveHotspots ai crimes =
     (case ai of
        None \<Rightarrow> resolve (JArr [])
      | Some client \<Rightarrow>
          if length crimes < 10 then resolve (JArr [])
          else
            (case map_throwing hotspot_row_of crimes of
               Inl e \<Rightarrow> reject e
             | Inr rows \<Rightarrow>
                 then_parse (generateContent client
                   \<lparr> model = flash_model,
                     contents = HotspotsPrompt rows,
                     responseMimeType = Some ''application/json'' \<rparr>)))"

section \<open>\<^verbatim>\<open>handleAIFeature\<close> (App.tsx)\<close>

text \<open>\<^verbatim>\<open>e instanceof Error ? e.message : 'An unknown error occurred.'\<close>\<close>

fun error_message :: "js_error \<Rightarrow> string" where
  "error_message (Error m) = m"
| "error_message (TypeError m) = m"
| "error_message (NonError v) = ''An unknown error occurred.''"

text \<open>
  The handler opens the modal, awaits the call once and stores either the rendered result
  or the red error \<^verbatim>\<open>div\<close>; an exception of \<^verbatim>\<open>onSuccess\<close> is caught by the same \<^verbatim>\<open>catch\<close>.
  The state is the modal state next to the requests sent so far.
\<close>

definition handleAIFeature ::
  "modal_key \<Rightarrow> 'a io \<Rightarrow> ('a \<Rightarrow> js_error + react_node) \<Rightarrow> modal_state \<times> request list
     \<Rightarrow> modal_state \<times> request list" where
  "handleAIFeature modalKey apiCall onSuccess st =
     (let opened = modalReducer (fst st) (OPEN_MODAL modalKey None)
      in case apiCall (snd st) of
           (Inr result, sent') \<Rightarrow>
             (case onSuccess result of
                Inr node \<Rightarrow> (modalReducer opened (SET_CONTENT node), sent')
              | Inl e \<Rightarrow> (modalReducer opened (SET_CONTENT (ErrorDiv (error_message e))), sent'))
         | (Inl e, sent') \<Rightarrow>
             (modalReducer opened (SET_CONTENT (ErrorDiv (error_message e))), sent'))"

section \<open>Quantities used in the proofs\<close>

text \<open>
  The value \<^verbatim>\<open>a\<close> that \<^verbatim>\<open>haversineDistance\<close> computes on finite coordinates, in degrees.
\<close>

definition hav_a :: "real \<Rightarrow> real \<Rightarrow> real \<Rightarrow> real \<Rightarrow> real" where
  "hav_a lat1 lon1 lat2 lon2 =
     sin ((lat2 - lat1) * pi / 180 / 2) * sin ((lat2 - lat1) * pi / 180 / 2)
     + cos (lat1 * pi / 180) * cos (lat2 * pi / 180)
       * sin ((lon2 - lon1) * pi / 180 / 2) * sin ((lon2 - lon1) * pi / 180 / 2)"


text \<open>
  The great-circle distance of the specification, stated without the haversine formula: on a
  sphere of radius 6371 km, the radius times the angle between the two points, each point
  being the unit vector of its latitude and longitude in degrees.
\<close>

definition unit_vector :: "real \<Rightarrow> real \<Rightarrow> real \<times> real \<times> real" where
  "unit_vector lat lon =
     (cos (lat * pi / 180) * cos (lon * pi / 180),
      cos (lat * pi / 180) * sin (lon * pi / 180),
      sin (lat * pi / 180))"

fun dot :: "real \<times> real \<times> real \<Rightarrow> real \<times> real \<times> real \<Rightarrow> real" where
  "dot (x1, y1, z1) (x2, y2, z2) = x1 * x2 + y1 * y2 + z1 * z2"

definition great_circle_km :: "real \<Rightarrow> real \<Rightarrow> real \<Rightarrow> real \<Rightarrow> real" where
  "great_circle_km lat1 lon1 lat2 lon2 =
     6371 * arccos (dot (unit_vector lat1 lon1) (unit_vector lat2 lon2))"


text \<open>\<^verbatim>\<open>Number.isFinite\<close>, and a location both of whose coordinates parse as finite numbers.\<close>

fun isFinite :: "jsnum \<Rightarrow> bool" where
  "isFinite (Fin x) = True"
| "isFinite _ = False"

definition has_finite_coordinates :: "Location option \<Rightarrow> bool" where
  "has_finite_coordinates l =
     (case l of
        None \<Rightarrow> False
      | Some loc \<Rightarrow>
          isFinite (parseFloat_field (latitude loc)) \<and> isFinite (parseFloat_field (longitude loc)))"

text \<open>The lists a prompt shows (empty where the prompt has the fixed sentence instead).\<close>

fun crime_sample :: "prompt \<Rightarrow> crime_summary list" where
  "crime_sample (IncidentBriefingPrompt ty da lo oc cs ss) = (case cs of None \<Rightarrow> [] | Some xs \<Rightarrow> xs)"
| "crime_sample (StopSearchBriefingPrompt ty da lo ob oc cs) = (case cs of None \<Rightarrow> [] | Some xs \<Rightarrow> xs)"
| "crime_sample (TrendSummaryPrompt xs) = xs"
| "crime_sample (InsightsPrompt xs) = xs"
| "crime_sample (HotspotsPrompt rows) = []"

fun stop_sample :: "prompt \<Rightarrow> stop_summary list" where
  "stop_sample (IncidentBriefingPrompt ty da lo oc cs ss) = (case ss of None \<Rightarrow> [] | Some xs \<Rightarrow> xs)"
| "stop_sample _ = []"

text \<open>Sample records: a location on a named street, a crime and a stop and search there.\<close>

definition sample_location :: "string \<Rightarrow> string \<Rightarrow> Location option" where
  "sample_location la lo =
     Some \<lparr> latitude = Some la, longitude = Some lo,
            street = Some \<lparr> street_id = 1, name = ''On or near High Street'' \<rparr> \<rparr>"

definition sample_crime :: "string \<Rightarrow> string \<Rightarrow> string \<Rightarrow> Crime" where
  "sample_crime la lo mo =
     \<lparr> category = ''anti-social-behaviour'', month = mo,
       location = sample_location la lo, outcome_status = None \<rparr>"

definition sample_stop :: "string \<Rightarrow> string \<Rightarrow> string \<Rightarrow> StopSearch" where
  "sample_stop la lo dt =
     \<lparr> datetime = dt, ss_type = ''Person search'', object_of_search = Some ''Controlled drugs'',
       outcome = ''A no further action disposal'', ss_location = sample_location la lo \<rparr>"

text \<open>A text between markdown code fences, with a language tag (possibly empty).\<close>

definition fenced :: "string \<Rightarrow> string \<Rightarrow> string" where
  "fenced tag s = ''```'' @ tag @ [CHR 0x0A] @ s @ [CHR 0x0A] @ ''```''"

text \<open>
  The second groups the fence expression captures from the position where its lazy group
  starts.
\<close>

definition captures_from :: "string \<Rightarrow> string list" where
  "captures_from r3 =
     concat (map (\<lambda>(g2, r4). map (\<lambda>_. g2) (fence_close r4)) (star_lazy_any r3))"

text \<open>
  A response of the shape the hotspot prompt asks for, and the value it denotes; the
  code units of an ASCII string are the codes of its characters.
\<close>

definition code_units :: "string \<Rightarrow> nat list" where
  "code_units s = map of_char s"

definition sample_hotspots :: string where
  "sample_hotspots = ''[{\"area\": \"High Street\", \"latitude\": 53.525, \"longitude\": -1.130, \"predictedCrimeType\": \"Shoplifting\", \"reason\": \"Retail theft\"}, {\"area\": \"Market Place\", \"latitude\": 53.523, \"longitude\": -1.134, \"predictedCrimeType\": \"Burglary\", \"reason\": \"Repeats\"}, {\"area\": \"Station Road\", \"latitude\": 53.521, \"longitude\": -1.139, \"predictedCrimeType\": \"Vehicle crime\", \"reason\": \"Car park\"}]''"

definition sample_hotspot :: "string \<Rightarrow> real \<Rightarrow> real \<Rightarrow> string \<Rightarrow> string \<Rightarrow> json" where
  "sample_hotspot a la lo ty re =
     JObj [(code_units ''area'', JStr (code_units a)),
           (code_units ''latitude'', JNum (Fin la)),
           (code_units ''longitude'', JNum (Fin lo)),
           (code_units ''predictedCrimeType'', JStr (code_units ty)),
           (code_units ''reason'', JStr (code_units re))]"

text \<open>The requests that the two list features send.\<close>

definition insights_request :: "Crime list \<Rightarrow> request" where
  "insights_request crimes =
     \<lparr> model = flash_model,
       contents = InsightsPrompt (map summarise_crime (take 200 crimes)),
       responseMimeType = Some ''application/json'' \<rparr>"

definition hotspots_request :: "hotspot_row list \<Rightarrow> request" where
  "hotspots_request rows =
     \<lparr> model = flash_model,
       contents = HotspotsPrompt rows,
       responseMimeType = Some ''application/json'' \<rparr>"

section \<open>Properties of the modal reducer\<close>

lemma open_count_initial: "open_count (modal initialModalState) = 0"
  by (simp add: open_count_def initialModalState_def)

lemma open_count_set_flag: "open_count (set_flag k (modal initialModalState)) = 1"
  by (cases k) (simp_all add: open_count_def initialModalState_def)

lemma modalReducer_open_count:
  "open_count (modal s) \<le> 1 \<Longrightarrow> open_count (modal (modalReducer s a)) \<le> 1"
  by (cases a) (simp_all add: open_count_set_flag open_count_initial)

lemma foldl_modalReducer_open_count:
  "open_count (modal s) \<le> 1 \<Longrightarrow> open_count (modal (foldl modalReducer s acts)) \<le> 1"
proof (induction acts arbitrary: s)
  case Nil
  then show ?case by simp
next
  case (Cons a acts)
  from Cons.prems have "open_count (modal (modalReducer s a)) \<le> 1"
    by (rule modalReducer_open_count)
  then have "open_count (modal (foldl modalReducer (modalReducer s a) acts)) \<le> 1"
    by (rule Cons.IH)
  then show ?case by simp
qed

text \<open>
  C10. Every state reached from \<^verbatim>\<open>initialModalState\<close> by dispatching any list of actions has
  at most one of the four flags set. \<^verbatim>\<open>OPEN_MODAL\<close> yields the initial (all false) flags with
  only the requested one set, \<^verbatim>\<open>CLOSE_MODAL\<close> yields the initial flags, and \<^verbatim>\<open>SET_LOADING\<close>
  and \<^verbatim>\<open>SET_CONTENT\<close> keep the flags as they are.
\<close>

theorem modal_at_most_one_open:
  "open_count (modal (dispatch_all acts)) \<le> 1
   \<and> modal (modalReducer s (OPEN_MODAL k c)) = set_flag k (modal initialModalState)
   \<and> open_count (modal (modalReducer s (OPEN_MODAL k c))) = 1
   \<and> modal (modalReducer s CLOSE_MODAL) = modal initialModalState
   \<and> open_count (modal (modalReducer s CLOSE_MODAL)) = 0
   \<and> modal (modalReducer s (SET_LOADING b)) = modal s
   \<and> modal (modalReducer s (SET_CONTENT n)) = modal s"
proof -
  have "open_count (modal (dispatch_all acts)) \<le> 1"
    unfolding dispatch_all_def
    by (rule foldl_modalReducer_open_count) (simp add: open_count_initial)
  then show ?thesis
    by (simp add: open_count_set_flag open_count_initial)
qed

section \<open>The haversine distance on finite coordinates\<close>

lemma haversine_Fin:
  "haversineDistance (Fin lat1) (Fin lon1) (Fin lat2) (Fin lon2) =
     (if 0 \<le> hav_a lat1 lon1 lat2 lon2 \<and> hav_a lat1 lon1 lat2 lon2 \<le> 1
      then Fin (6371 * (2 * real_atan2 (sqrt (hav_a lat1 lon1 lat2 lon2))
                                        (sqrt (1 - hav_a lat1 lon1 lat2 lon2))))
      else NaN)"
proof -
  define a where "a = hav_a lat1 lon1 lat2 lon2"
  have "haversineDistance (Fin lat1) (Fin lon1) (Fin lat2) (Fin lon2) =
    js_mul (Fin 6371) (js_mul (Fin 2) (js_atan2 (js_sqrt (Fin a)) (js_sqrt (js_sub (Fin 1) (Fin a)))))"
    by (simp add: haversineDistance_def Let_def js_sub_def hav_a_def a_def)
  also have "\<dots> = (if 0 \<le> a \<and> a \<le> 1 then Fin (6371 * (2 * real_atan2 (sqrt a) (sqrt (1 - a)))) else NaN)"
    by (simp add: js_sub_def)
  finally show ?thesis by (simp add: a_def)
qed

lemma real_atan2_arcsin:
  assumes "0 \<le> a" "a \<le> 1"
  shows "real_atan2 (sqrt a) (sqrt (1 - a)) = arcsin (sqrt a)"
proof (cases "a = 1")
  case True
  then show ?thesis by (simp add: real_atan2_def)
next
  case False
  with assms have lt: "a < 1" by simp
  then have pos: "0 < sqrt (1 - a)" by simp
  have s1: "sqrt a < 1" using lt assms by simp
  have s0: "- 1 < sqrt a" using real_sqrt_ge_zero [OF assms(1)] by linarith
  have "arcsin (sqrt a) = arctan (sqrt a / sqrt (1 - (sqrt a)\<^sup>2))"
    by (rule arcsin_arctan [OF s0 s1])
  also have "(sqrt a)\<^sup>2 = a" using assms by simp
  finally show ?thesis using pos by (simp add: real_atan2_def)
qed

text \<open>On finite coordinates the function is the haversine formula \<open>2 R arcsin (sqrt a)\<close>.\<close>

lemma haversine_arcsin:
  "haversineDistance (Fin lat1) (Fin lon1) (Fin lat2) (Fin lon2) =
     (if 0 \<le> hav_a lat1 lon1 lat2 lon2 \<and> hav_a lat1 lon1 lat2 lon2 \<le> 1
      then Fin (6371 * (2 * arcsin (sqrt (hav_a lat1 lon1 lat2 lon2))))
      else NaN)"
  by (simp add: haversine_Fin real_atan2_arcsin)

lemma sin_lower:
  fixes t :: real
  assumes "0 \<le> t"
  shows "t - t ^ 3 / 6 \<le> sin t"
proof -
  have "\<bar>sin t - (\<Sum>m<3. sin_coeff m * t ^ m)\<bar> \<le> inverse (fact 3) * \<bar>t\<bar> ^ 3"
    by (rule Maclaurin_sin_bound)
  moreover have "(\<Sum>m<3. sin_coeff m * t ^ m) = t"
    by (simp add: sin_coeff_def numeral_3_eq_3)
  moreover have "inverse (fact 3) * \<bar>t\<bar> ^ 3 = t ^ 3 / 6"
    using assms by (simp add: fact_numeral)
  ultimately show ?thesis by linarith
qed

lemma arcsin_upper:
  fixes a t :: real
  assumes "0 \<le> a" "sqrt a \<le> sin t" "0 \<le> t" "t \<le> 1"
  shows "arcsin (sqrt a) \<le> t"
proof -
  have t2: "t \<le> pi / 2" using assms pi_ge_two by linarith
  have a0: "- 1 \<le> sqrt a" using real_sqrt_ge_zero [OF assms(1)] by linarith
  have "arcsin (sqrt a) \<le> arcsin (sin t)"
    using a0 assms(2) sin_le_one by (rule arcsin_le_arcsin)
  also have "arcsin (sin t) = t" using assms t2 by (intro arcsin_sin) auto
  finally show ?thesis .
qed

lemma arcsin_lower:
  fixes a x :: real
  assumes "(sin x)\<^sup>2 \<le> a" "a \<le> 1" "0 \<le> x" "x \<le> 1"
  shows "x \<le> arcsin (sqrt a)"
proof -
  have x2: "x \<le> pi / 2" using assms pi_ge_two by linarith
  then have "x \<le> pi" using pi_ge_zero by linarith
  with assms(3) have s0: "0 \<le> sin x" by (rule sin_ge_zero)
  have "sqrt ((sin x)\<^sup>2) \<le> sqrt a" using assms(1) by (simp only: real_sqrt_le_iff)
  then have le: "sin x \<le> sqrt a" using s0 by simp
  have a1: "sqrt a \<le> 1" using assms(2) by simp
  have m1: "- 1 \<le> sin x" by simp
  have "arcsin (sin x) \<le> arcsin (sqrt a)"
    using m1 le a1 by (rule arcsin_le_arcsin)
  moreover have "arcsin (sin x) = x" using assms x2 by (intro arcsin_sin) auto
  ultimately show ?thesis by simp
qed

lemma cos_latitude_range:
  fixes lat :: real
  assumes "0 \<le> lat" "lat \<le> 90"
  shows "0 \<le> cos (lat * pi / 180)" "cos (lat * pi / 180) \<le> 1"
proof -
  have "0 \<le> lat * pi / 180" using assms by simp
  then have lo: "- (pi / 2) \<le> lat * pi / 180"
    using pi_ge_zero by linarith
  have "lat * pi \<le> 90 * pi" using assms by (intro mult_right_mono) auto
  then have hi: "lat * pi / 180 \<le> pi / 2" by simp
  show "0 \<le> cos (lat * pi / 180)" using lo hi by (rule cos_ge_zero)
  show "cos (lat * pi / 180) \<le> 1" by simp
qed

lemma sin_mult_self_le:
  fixes x :: real
  shows "sin x * sin x \<le> x * x" "0 \<le> sin x * sin x"
proof -
  have "\<bar>sin x\<bar> \<le> \<bar>x\<bar>" by (rule abs_sin_x_le_abs_x)
  then have "(sin x)\<^sup>2 \<le> x\<^sup>2" by (simp only: abs_le_square_iff)
  then show "sin x * sin x \<le> x * x" by (simp add: power2_eq_square)
  show "0 \<le> sin x * sin x" by simp
qed

lemma hav_a_bounds:
  assumes "0 \<le> lat1" "lat1 \<le> 90" "0 \<le> lat2" "lat2 \<le> 90"
  shows "(sin ((lat2 - lat1) * pi / 180 / 2))\<^sup>2 \<le> hav_a lat1 lon1 lat2 lon2"
    and "hav_a lat1 lon1 lat2 lon2
           \<le> ((lat2 - lat1) * pi / 180 / 2) * ((lat2 - lat1) * pi / 180 / 2)
             + ((lon2 - lon1) * pi / 180 / 2) * ((lon2 - lon1) * pi / 180 / 2)"
proof -
  define X where "X = (lat2 - lat1) * pi / 180 / 2"
  define Y where "Y = (lon2 - lon1) * pi / 180 / 2"
  define c where "c = cos (lat1 * pi / 180) * cos (lat2 * pi / 180)"
  have a: "hav_a lat1 lon1 lat2 lon2 = sin X * sin X + c * (sin Y * sin Y)"
    by (simp add: hav_a_def X_def Y_def c_def)
  have c0: "0 \<le> c" unfolding c_def
    using cos_latitude_range(1) [OF assms(1,2)] cos_latitude_range(1) [OF assms(3,4)]
    by (rule mult_nonneg_nonneg)
  have c1: "c \<le> 1" unfolding c_def
    using cos_latitude_range [OF assms(1,2)] cos_latitude_range [OF assms(3,4)]
    by (intro mult_le_one) auto
  have y0: "0 \<le> sin Y * sin Y" and y1: "sin Y * sin Y \<le> Y * Y"
    by (rule sin_mult_self_le)+
  have x1: "sin X * sin X \<le> X * X" by (rule sin_mult_self_le)
  have t0: "0 \<le> c * (sin Y * sin Y)" using c0 y0 by (rule mult_nonneg_nonneg)
  have "c * (sin Y * sin Y) \<le> 1 * (sin Y * sin Y)" using c1 y0 by (rule mult_right_mono)
  then have t1: "c * (sin Y * sin Y) \<le> Y * Y" using y1 by linarith
  show "(sin ((lat2 - lat1) * pi / 180 / 2))\<^sup>2 \<le> hav_a lat1 lon1 lat2 lon2"
    using t0 unfolding a X_def [symmetric] by (simp add: power2_eq_square)
  show "hav_a lat1 lon1 lat2 lon2
           \<le> ((lat2 - lat1) * pi / 180 / 2) * ((lat2 - lat1) * pi / 180 / 2)
             + ((lon2 - lon1) * pi / 180 / 2) * ((lon2 - lon1) * pi / 180 / 2)"
    using x1 t1 unfolding a X_def [symmetric] Y_def [symmetric] by linarith
qed

lemma pi_square_le: "pi * pi \<le> 16"
proof -
  have "pi * pi \<le> 4 * 4"
    using pi_less_4 pi_ge_zero by (intro mult_mono) auto
  then show ?thesis by simp
qed

lemma near_a: "hav_a 53.5228 (-1.1285) 53.5230 (-1.1286) \<le> (1 / 300000)\<^sup>2"
  and near_a0: "0 \<le> hav_a 53.5228 (-1.1285) 53.5230 (-1.1286)"
proof -
  have b: "hav_a 53.5228 (-1.1285) 53.5230 (-1.1286)
        \<le> ((53.5230 - 53.5228) * pi / 180 / 2) * ((53.5230 - 53.5228) * pi / 180 / 2)
             + ((-1.1286 - (-1.1285)) * pi / 180 / 2) * ((-1.1286 - (-1.1285)) * pi / 180 / 2)"
    by (rule hav_a_bounds) auto
  have "((53.5230 - 53.5228) * pi / 180 / 2) * ((53.5230 - 53.5228) * pi / 180 / 2)
             + ((-1.1286 - (-1.1285)) * pi / 180 / 2) * ((-1.1286 - (-1.1285)) * pi / 180 / 2)
        = (pi * pi) * (5 / 12960000000000 :: real)"
    by (simp add: field_simps)
  also have "\<dots> \<le> 16 * (5 / 12960000000000 :: real)"
    using pi_square_le by (intro mult_right_mono) auto
  also have "\<dots> \<le> (1 / 300000)\<^sup>2" by (simp add: power2_eq_square)
  finally show "hav_a 53.5228 (-1.1285) 53.5230 (-1.1286) \<le> (1 / 300000)\<^sup>2" using b by linarith
  have "0 \<le> (sin ((53.5230 - 53.5228) * pi / 180 / 2))\<^sup>2" by simp
  also have "\<dots> \<le> hav_a 53.5228 (-1.1285) 53.5230 (-1.1286)"
    by (rule hav_a_bounds) auto
  finally show "0 \<le> hav_a 53.5228 (-1.1285) 53.5230 (-1.1286)" .
qed

lemma near_distance:
  "js_le (haversineDistance (Fin 53.5228) (Fin (-1.1285)) (Fin 53.5230) (Fin (-1.1286))) proximityRadiusKm"
proof -
  define a where "a = hav_a 53.5228 (-1.1285) 53.5230 (-1.1286)"
  have a0: "0 \<le> a" and a1: "a \<le> (1 / 300000)\<^sup>2"
    unfolding a_def by (rule near_a0, rule near_a)
  have a_le1: "a \<le> 1" using a1 by (simp add: power2_eq_square)
  have "sqrt a \<le> 1 / 300000" using a1 by (intro real_le_lsqrt) auto
  also have "(1 / 300000 :: real) \<le> 1 / 50968 - (1 / 50968) ^ 3 / 6" by (simp add: power3_eq_cube)
  also have "\<dots> \<le> sin (1 / 50968)" by (rule sin_lower) simp
  finally have "arcsin (sqrt a) \<le> 1 / 50968" using a0 by (intro arcsin_upper) auto
  then have d: "6371 * (2 * arcsin (sqrt a)) \<le> 0.25" by simp
  have "haversineDistance (Fin 53.5228) (Fin (-1.1285)) (Fin 53.5230) (Fin (-1.1286))
          = Fin (6371 * (2 * arcsin (sqrt a)))"
    unfolding haversine_arcsin a_def [symmetric] using a0 a_le1 by simp
  then show ?thesis
    using d by (simp add: proximityRadiusKm_def)
qed

lemma far_distance:
  "\<not> js_le (haversineDistance (Fin 53.5228) (Fin (-1.1285)) (Fin 53.5300) (Fin (-1.1400))) proximityRadiusKm"
proof -
  define a where "a = hav_a 53.5228 (-1.1285) 53.5300 (-1.1400)"
  define X :: real where "X = (53.5300 - 53.5228) * pi / 180 / 2"
  have lo: "(sin X)\<^sup>2 \<le> a" unfolding a_def X_def by (rule hav_a_bounds) auto
  have up: "a \<le> ((53.5300 - 53.5228) * pi / 180 / 2) * ((53.5300 - 53.5228) * pi / 180 / 2)
             + ((-1.1400 - (-1.1285)) * pi / 180 / 2) * ((-1.1400 - (-1.1285)) * pi / 180 / 2)"
    unfolding a_def by (rule hav_a_bounds) auto
  have "((53.5300 - 53.5228) * pi / 180 / 2) * ((53.5300 - 53.5228) * pi / 180 / 2)
             + ((-1.1400 - (-1.1285)) * pi / 180 / 2) * ((-1.1400 - (-1.1285)) * pi / 180 / 2)
        = (pi * pi) * ((0.0072 * 0.0072 + 0.0115 * 0.0115) / (360 * 360) :: real)"
    by (simp add: field_simps)
  also have "\<dots> \<le> 16 * ((0.0072 * 0.0072 + 0.0115 * 0.0115) / (360 * 360) :: real)"
    using pi_square_le by (intro mult_right_mono) auto
  also have "\<dots> \<le> 1" by simp
  finally have a1: "a \<le> 1" using up by linarith
  have "0 \<le> (sin X)\<^sup>2" by simp
  with lo have a0: "0 \<le> a" by linarith
  have Xeq: "X = pi / 50000" by (simp add: X_def)
  have X0: "0 \<le> X" by (simp add: Xeq)
  have X1: "X \<le> 1" using pi_less_4 by (simp add: Xeq)
  have Xlow: "2 / 50000 \<le> X" using pi_ge_two by (simp add: Xeq)
  have "X \<le> arcsin (sqrt a)" using lo a1 X0 X1 by (rule arcsin_lower)
  with Xlow have "2 / 50000 \<le> arcsin (sqrt a)" by linarith
  then have d: "0.25 < 6371 * (2 * arcsin (sqrt a))" by simp
  have "haversineDistance (Fin 53.5228) (Fin (-1.1285)) (Fin 53.5300) (Fin (-1.1400))
          = Fin (6371 * (2 * arcsin (sqrt a)))"
    unfolding haversine_arcsin a_def [symmetric] using a0 a1 by simp
  then show ?thesis
    using d by (simp add: proximityRadiusKm_def)
qed

subsection \<open>The haversine formula gives the great-circle distance\<close>

lemma sin_half_square:
  fixes x :: real
  shows "sin (x / 2) * sin (x / 2) = (1 - cos x) / 2"
  using cos_double_sin [of "x / 2"] by (simp add: power2_eq_square)

lemma dot_unit_vectors:
  "dot (unit_vector lat1 lon1) (unit_vector lat2 lon2) = 1 - 2 * hav_a lat1 lon1 lat2 lon2"
proof -
  define p1 where "p1 = lat1 * pi / 180"
  define p2 where "p2 = lat2 * pi / 180"
  define l1 where "l1 = lon1 * pi / 180"
  define l2 where "l2 = lon2 * pi / 180"
  have dp: "(lat2 - lat1) * pi / 180 = p2 - p1" and dl: "(lon2 - lon1) * pi / 180 = l2 - l1"
    by (simp_all add: p1_def p2_def l1_def l2_def algebra_simps diff_divide_distrib)
  have a: "hav_a lat1 lon1 lat2 lon2
      = sin ((p2 - p1) / 2) * sin ((p2 - p1) / 2)
        + cos p1 * cos p2 * (sin ((l2 - l1) / 2) * sin ((l2 - l1) / 2))"
    unfolding hav_a_def dp dl by (simp add: p1_def p2_def algebra_simps)
  have "1 - 2 * hav_a lat1 lon1 lat2 lon2
      = cos (p2 - p1) - cos p1 * cos p2 * (1 - cos (l2 - l1))"
    unfolding a sin_half_square by (simp add: field_simps)
  also have "\<dots> = cos p1 * cos l1 * (cos p2 * cos l2) + cos p1 * sin l1 * (cos p2 * sin l2)
      + sin p1 * sin p2"
    by (simp add: cos_diff algebra_simps)
  finally show ?thesis
    by (simp add: unit_vector_def p1_def p2_def l1_def l2_def)
qed

lemma haversine_great_circle:
  assumes "0 \<le> hav_a lat1 lon1 lat2 lon2" "hav_a lat1 lon1 lat2 lon2 \<le> 1"
  shows "6371 * (2 * arcsin (sqrt (hav_a lat1 lon1 lat2 lon2))) = great_circle_km lat1 lon1 lat2 lon2"
proof -
  define a where "a = hav_a lat1 lon1 lat2 lon2"
  have a01: "0 \<le> a" "a \<le> 1" using assms by (simp_all add: a_def)
  then have s01: "0 \<le> sqrt a" "sqrt a \<le> 1" by simp_all
  have lo: "0 \<le> arcsin (sqrt a)"
    using arcsin_le_arcsin [of 0 "sqrt a"] s01 by simp
  have hi: "arcsin (sqrt a) \<le> pi / 2"
    using arcsin_le_arcsin [of "sqrt a" 1] s01 by simp
  have "sin (arcsin (sqrt a)) = sqrt a"
    by (rule sin_arcsin) (use s01 in linarith)+
  then have "cos (2 * arcsin (sqrt a)) = 1 - 2 * a"
    using a01 by (simp add: cos_double_sin)
  then have "arccos (1 - 2 * a) = arccos (cos (2 * arcsin (sqrt a)))" by simp
  also have "\<dots> = 2 * arcsin (sqrt a)"
    using lo hi by (intro arccos_cos) simp_all
  finally show ?thesis
    by (simp add: great_circle_km_def dot_unit_vectors a_def)
qed

lemma unit_vector_norm:
  assumes "unit_vector lat lon = (x, y, z)"
  shows "x * x + y * y + z * z = 1"
proof -
  define p where "p = lat * pi / 180"
  define l where "l = lon * pi / 180"
  have x: "x = cos p * cos l" and y: "y = cos p * sin l" and z: "z = sin p"
    using assms by (simp_all add: unit_vector_def p_def l_def)
  have cl: "cos l * cos l + sin l * sin l = 1" and cp: "cos p * cos p + sin p * sin p = 1"
    using sin_cos_squared_add2 [of l] sin_cos_squared_add2 [of p]
    by (simp_all add: power2_eq_square)
  have "x * x + y * y + z * z
      = cos p * cos p * (cos l * cos l + sin l * sin l) + sin p * sin p"
    unfolding x y z by (simp only: distrib_left mult_ac)
  also have "\<dots> = 1" unfolding cl using cp by simp
  finally show ?thesis .
qed

lemma hav_a_range: "0 \<le> hav_a lat1 lon1 lat2 lon2 \<and> hav_a lat1 lon1 lat2 lon2 \<le> 1"
proof -
  obtain x1 y1 z1 where u: "unit_vector lat1 lon1 = (x1, y1, z1)"
    by (cases "unit_vector lat1 lon1") auto
  obtain x2 y2 z2 where v: "unit_vector lat2 lon2 = (x2, y2, z2)"
    by (cases "unit_vector lat2 lon2") auto
  note n1 = unit_vector_norm [OF u] and n2 = unit_vector_norm [OF v]
  have "0 \<le> (x1 - x2)\<^sup>2 + (y1 - y2)\<^sup>2 + (z1 - z2)\<^sup>2" by simp
  then have up: "x1 * x2 + y1 * y2 + z1 * z2 \<le> 1"
    using n1 n2 by (simp add: power2_eq_square algebra_simps)
  have "0 \<le> (x1 + x2)\<^sup>2 + (y1 + y2)\<^sup>2 + (z1 + z2)\<^sup>2" by simp
  then have dn: "- 1 \<le> x1 * x2 + y1 * y2 + z1 * z2"
    using n1 n2 by (simp add: power2_eq_square algebra_simps)
  have "x1 * x2 + y1 * y2 + z1 * z2 = 1 - 2 * hav_a lat1 lon1 lat2 lon2"
    using dot_unit_vectors [of lat1 lon1 lat2 lon2] unfolding u v by simp
  with up dn show ?thesis by simp
qed

lemma haversine_is_great_circle:
  "haversineDistance (Fin lat1) (Fin lon1) (Fin lat2) (Fin lon2)
     = Fin (great_circle_km lat1 lon1 lat2 lon2)"
  unfolding haversine_arcsin
  using hav_a_range [of lat1 lon1 lat2 lon2] haversine_great_circle [of lat1 lon1 lat2 lon2]
  by simp


section \<open>The proximity filter\<close>

lemma js_atan2_cases: "js_atan2 p q = NaN \<or> (\<exists>x. js_atan2 p q = Fin x)"
  by (cases p; cases q; simp only: js_atan2.simps; blast)

lemma haversine_cases:
  "haversineDistance a b c d = NaN \<or> (\<exists>x. haversineDistance a b c d = Fin x)"
proof -
  obtain p q where h: "haversineDistance a b c d = js_mul (Fin 6371) (js_mul (Fin 2) (js_atan2 p q))"
    by (simp add: haversineDistance_def Let_def)
  from js_atan2_cases [of p q] show ?thesis
    unfolding h by auto
qed

lemma js_le_haversine:
  assumes "js_le (haversineDistance a b c d) proximityRadiusKm"
  shows "\<exists>x. haversineDistance a b c d = Fin x \<and> x \<le> 0.25"
  using assms haversine_cases [of a b c d]
  by (auto simp: proximityRadiusKm_def)

lemma haversine_nonfinite:
  assumes "\<not> isFinite c \<or> \<not> isFinite d"
  shows "haversineDistance a b c d = NaN"
  using assms
  by (cases a; cases b; cases c; cases d)
     (simp_all add: haversineDistance_def Let_def js_sub_def inf_scaled_def)

lemma haversine_Fin_finite:
  assumes "haversineDistance a b c d = Fin r"
  shows "\<exists>lat1 lon1 lat2 lon2. a = Fin lat1 \<and> b = Fin lon1 \<and> c = Fin lat2 \<and> d = Fin lon2"
proof -
  have "\<not> isFinite a \<or> \<not> isFinite b \<or> \<not> isFinite c \<or> \<not> isFinite d
      \<Longrightarrow> haversineDistance a b c d = NaN"
    by (cases a; cases b; cases c; cases d)
       (simp_all add: haversineDistance_def Let_def js_sub_def inf_scaled_def)
  with assms show ?thesis
    by (cases a; cases b; cases c; cases d) auto
qed

lemma within_radius_great_circle:
  assumes "js_le (haversineDistance a b c d) proximityRadiusKm"
  shows "\<exists>lat1 lon1 lat2 lon2. a = Fin lat1 \<and> b = Fin lon1 \<and> c = Fin lat2 \<and> d = Fin lon2
     \<and> haversineDistance a b c d = Fin (great_circle_km lat1 lon1 lat2 lon2)
     \<and> great_circle_km lat1 lon1 lat2 lon2
         = 6371 * (2 * arcsin (sqrt (hav_a lat1 lon1 lat2 lon2)))
     \<and> great_circle_km lat1 lon1 lat2 lon2 \<le> 0.25"
proof -
  from js_le_haversine [OF assms] obtain r
    where r: "haversineDistance a b c d = Fin r" and le: "r \<le> 0.25" by blast
  from haversine_Fin_finite [OF r] obtain lat1 lon1 lat2 lon2
    where f: "a = Fin lat1" "b = Fin lon1" "c = Fin lat2" "d = Fin lon2" by blast
  have g: "r = great_circle_km lat1 lon1 lat2 lon2"
    using r unfolding f haversine_is_great_circle by simp
  have h: "great_circle_km lat1 lon1 lat2 lon2
      = 6371 * (2 * arcsin (sqrt (hav_a lat1 lon1 lat2 lon2)))"
    using hav_a_range [of lat1 lon1 lat2 lon2] haversine_great_circle [of lat1 lon1 lat2 lon2]
    by simp
  from r le f h show ?thesis unfolding g by blast
qed

lemma coordinate_guard_Parsed:
  "coordinate_guard l = Parsed a b \<longleftrightarrow>
     (\<exists>loc la lo. l = Some loc \<and> latitude loc = Some la \<and> longitude loc = Some lo
        \<and> la \<noteq> [] \<and> lo \<noteq> []
        \<and> a = parseFloat la \<and> b = parseFloat lo \<and> \<not> isNaN a \<and> \<not> isNaN b)"
  by (auto simp: coordinate_guard_def split: option.splits)

lemma crime_is_nearby_iff:
  "crime_is_nearby refLat refLng lo hi c \<longleftrightarrow>
     (\<exists>a b. coordinate_guard (location c) = Parsed a b
        \<and> js_le (haversineDistance refLat refLng a b) proximityRadiusKm
        \<and> isBetween (moment_iso (month c)) lo hi)"
  by (auto simp: crime_is_nearby_def split: guard_result.splits)

lemma stop_is_nearby_iff:
  "stop_is_nearby refLat refLng lo hi ss \<longleftrightarrow>
     (\<exists>a b. coordinate_guard (ss_location ss) = Parsed a b
        \<and> js_le (haversineDistance refLat refLng a b) proximityRadiusKm
        \<and> isBetween (moment_iso (datetime ss)) lo hi)"
  by (auto simp: stop_is_nearby_def split: guard_result.splits)

lemma isBetween_iff:
  "isBetween m lo hi \<longleftrightarrow> (\<exists>t a b. m = At t \<and> lo = At a \<and> hi = At b \<and> a \<le> t \<and> t \<le> b)"
  by (cases m; cases lo; cases hi) (auto simp: isBetween_def isBefore_def isAfter_def)

subsection \<open>A worked instance\<close>

lemma parse_5228: "parseFloat ''53.5228'' = Fin 53.5228"
  and parse_1285: "parseFloat ''-1.1285'' = Fin (-1.1285)"
  and parse_5230: "parseFloat ''53.5230'' = Fin 53.5230"
  and parse_1286: "parseFloat ''-1.1286'' = Fin (-1.1286)"
  and parse_5300: "parseFloat ''53.5300'' = Fin 53.5300"
  and parse_1400: "parseFloat ''-1.1400'' = Fin (-1.1400)"
  by (simp_all add: parseFloat_def is_space_def is_digit_def digits_val_def digit_val_def
        scale10_def exponent_part_def to_double_def)

lemma window_2024_05:
  "moment_YYYY_MM ''2024-05'' = At 1714521600000"
  "subtract_months 1 (At 1714521600000) = At 1711929600000"
  "add_months 1 (At 1714521600000) = At 1717200000000"
  by code_simp+

lemma months_2024:
  "moment_iso ''2024-06'' = At 1717200000000"
  "moment_iso ''2024-01'' = At 1704067200000"
  "moment_iso ''2024-05-14T12:30:00+00:00'' = At 1715689800000"
  by code_simp+

lemma sample_included:
  "crime_is_nearby (parseFloat ''53.5228'') (parseFloat ''-1.1285'') (At 1711929600000) (At 1717200000000)
     (sample_crime ''53.5230'' ''-1.1286'' ''2024-06'')"
  using near_distance
  by (simp add: crime_is_nearby_def coordinate_guard_def sample_crime_def sample_location_def
        parse_5228 parse_1285 parse_5230 parse_1286 months_2024 isBetween_def isBefore_def isAfter_def)

lemma sample_too_far:
  "\<not> crime_is_nearby (parseFloat ''53.5228'') (parseFloat ''-1.1285'') (At 1711929600000) (At 1717200000000)
     (sample_crime ''53.5300'' ''-1.1400'' ''2024-06'')"
  using far_distance
  by (simp add: crime_is_nearby_def coordinate_guard_def sample_crime_def sample_location_def
        parse_5228 parse_1285 parse_5300 parse_1400)

lemma sample_too_early:
  "\<not> crime_is_nearby (parseFloat ''53.5228'') (parseFloat ''-1.1285'') (At 1711929600000) (At 1717200000000)
     (sample_crime ''53.5230'' ''-1.1286'' ''2024-01'')"
  by (simp add: crime_is_nearby_def coordinate_guard_def sample_crime_def sample_location_def
        parse_5228 parse_1285 parse_5230 parse_1286 months_2024 isBetween_def isBefore_def isAfter_def)

lemma sample_stop_included:
  "stop_is_nearby (parseFloat ''53.5228'') (parseFloat ''-1.1285'') (At 1711929600000) (At 1717200000000)
     (sample_stop ''53.5230'' ''-1.1286'' ''2024-05-14T12:30:00+00:00'')"
  using near_distance
  by (simp add: stop_is_nearby_def coordinate_guard_def sample_stop_def sample_location_def
        parse_5228 parse_1285 parse_5230 parse_1286 months_2024 isBetween_def isBefore_def isAfter_def)

lemma sample_crimes_filter:
  "nearbyCrimes_filter (parseFloat ''53.5228'') (parseFloat ''-1.1285'') (At 1714521600000)
     [sample_crime ''53.5230'' ''-1.1286'' ''2024-06'',
      sample_crime ''53.5300'' ''-1.1400'' ''2024-06'',
      sample_crime ''53.5230'' ''-1.1286'' ''2024-01'']
   = [sample_crime ''53.5230'' ''-1.1286'' ''2024-06'']"
  by (simp add: nearbyCrimes_filter_def window_2024_05 sample_included sample_too_far sample_too_early Let_def)

lemma sample_stops_filter:
  "nearbyStopSearches_filter (parseFloat ''53.5228'') (parseFloat ''-1.1285'') (At 1714521600000)
     [sample_stop ''53.5230'' ''-1.1286'' ''2024-05-14T12:30:00+00:00'']
   = [sample_stop ''53.5230'' ''-1.1286'' ''2024-05-14T12:30:00+00:00'']"
  by (simp add: nearbyStopSearches_filter_def window_2024_05 sample_stop_included Let_def)


section \<open>Claims about the proximity filter\<close>

text \<open>
  C1. Every record that the filter stage of \<^verbatim>\<open>nearbyCrimes\<close> or \<^verbatim>\<open>nearbyStopSearches\<close> returns
  has a location with both coordinate strings; the reference coordinates and the coordinates
  parsed from the strings are finite; the value of \<^verbatim>\<open>haversineDistance\<close> on them is the
  great-circle distance between the two points on a sphere of radius 6371 km, which is also
  the haversine expression \<^verbatim>\<open>R * 2 * arcsin (sqrt a)\<close>; and that distance is at most 0.25 km.
\<close>

theorem nearby_within_radius:
  "(c \<in> set (nearbyCrimes_filter refLat refLng t allCrimes) \<longrightarrow>
      (\<exists>loc la lo lat1 lon1 lat2 lon2.
         location c = Some loc \<and> latitude loc = Some la \<and> longitude loc = Some lo
         \<and> refLat = Fin lat1 \<and> refLng = Fin lon1
         \<and> parseFloat la = Fin lat2 \<and> parseFloat lo = Fin lon2
         \<and> haversineDistance refLat refLng (parseFloat la) (parseFloat lo)
             = Fin (great_circle_km lat1 lon1 lat2 lon2)
         \<and> great_circle_km lat1 lon1 lat2 lon2
             = 6371 * (2 * arcsin (sqrt (hav_a lat1 lon1 lat2 lon2)))
         \<and> great_circle_km lat1 lon1 lat2 lon2 \<le> 0.25))
   \<and> (ss \<in> set (nearbyStopSearches_filter refLat refLng t allStopSearches) \<longrightarrow>
      (\<exists>loc la lo lat1 lon1 lat2 lon2.
         ss_location ss = Some loc \<and> latitude loc = Some la \<and> longitude loc = Some lo
         \<and> refLat = Fin lat1 \<and> refLng = Fin lon1
         \<and> parseFloat la = Fin lat2 \<and> parseFloat lo = Fin lon2
         \<and> haversineDistance refLat refLng (parseFloat la) (parseFloat lo)
             = Fin (great_circle_km lat1 lon1 lat2 lon2)
         \<and> great_circle_km lat1 lon1 lat2 lon2
             = 6371 * (2 * arcsin (sqrt (hav_a lat1 lon1 lat2 lon2)))
         \<and> great_circle_km lat1 lon1 lat2 lon2 \<le> 0.25))"
proof (intro conjI impI)
  assume "c \<in> set (nearbyCrimes_filter refLat refLng t allCrimes)"
  then have "crime_is_nearby refLat refLng (subtract_months 1 t) (add_months 1 t) c"
    by (simp add: nearbyCrimes_filter_def)
  then obtain a b where g: "coordinate_guard (location c) = Parsed a b"
    and le: "js_le (haversineDistance refLat refLng a b) proximityRadiusKm"
    unfolding crime_is_nearby_iff by blast
  from g obtain loc la lo where l: "location c = Some loc" "latitude loc = Some la"
    "longitude loc = Some lo" and ab: "a = parseFloat la" "b = parseFloat lo"
    unfolding coordinate_guard_Parsed by blast
  from within_radius_great_circle [OF le] l
  show "\<exists>loc la lo lat1 lon1 lat2 lon2.
         location c = Some loc \<and> latitude loc = Some la \<and> longitude loc = Some lo
         \<and> refLat = Fin lat1 \<and> refLng = Fin lon1
         \<and> parseFloat la = Fin lat2 \<and> parseFloat lo = Fin lon2
         \<and> haversineDistance refLat refLng (parseFloat la) (parseFloat lo)
             = Fin (great_circle_km lat1 lon1 lat2 lon2)
         \<and> great_circle_km lat1 lon1 lat2 lon2
             = 6371 * (2 * arcsin (sqrt (hav_a lat1 lon1 lat2 lon2)))
         \<and> great_circle_km lat1 lon1 lat2 lon2 \<le> 0.25"
    unfolding ab by blast
next
  assume "ss \<in> set (nearbyStopSearches_filter refLat refLng t allStopSearches)"
  then have "stop_is_nearby refLat refLng (subtract_months 1 t) (add_months 1 t) ss"
    by (simp add: nearbyStopSearches_filter_def)
  then obtain a b where g: "coordinate_guard (ss_location ss) = Parsed a b"
    and le: "js_le (haversineDistance refLat refLng a b) proximityRadiusKm"
    unfolding stop_is_nearby_iff by blast
  from g obtain loc la lo where l: "ss_location ss = Some loc" "latitude loc = Some la"
    "longitude loc = Some lo" and ab: "a = parseFloat la" "b = parseFloat lo"
    unfolding coordinate_guard_Parsed by blast
  from within_radius_great_circle [OF le] l
  show "\<exists>loc la lo lat1 lon1 lat2 lon2.
         ss_location ss = Some loc \<and> latitude loc = Some la \<and> longitude loc = Some lo
         \<and> refLat = Fin lat1 \<and> refLng = Fin lon1
         \<and> parseFloat la = Fin lat2 \<and> parseFloat lo = Fin lon2
         \<and> haversineDistance refLat refLng (parseFloat la) (parseFloat lo)
             = Fin (great_circle_km lat1 lon1 lat2 lon2)
         \<and> great_circle_km lat1 lon1 lat2 lon2
             = 6371 * (2 * arcsin (sqrt (hav_a lat1 lon1 lat2 lon2)))
         \<and> great_circle_km lat1 lon1 lat2 lon2 \<le> 0.25"
    unfolding ab by blast
qed

theorem nearby_within_radius_witness:
  "sample_crime ''53.5230'' ''-1.1286'' ''2024-06''
     \<in> set (nearbyCrimes_filter (parseFloat ''53.5228'') (parseFloat ''-1.1285'') (At 1714521600000)
          [sample_crime ''53.5230'' ''-1.1286'' ''2024-06'',
           sample_crime ''53.5300'' ''-1.1400'' ''2024-06'',
           sample_crime ''53.5230'' ''-1.1286'' ''2024-01''])
   \<and> (\<exists>loc la lo lat1 lon1 lat2 lon2.
         location (sample_crime ''53.5230'' ''-1.1286'' ''2024-06'') = Some loc
         \<and> latitude loc = Some la \<and> longitude loc = Some lo
         \<and> parseFloat ''53.5228'' = Fin lat1 \<and> parseFloat ''-1.1285'' = Fin lon1
         \<and> parseFloat la = Fin lat2 \<and> parseFloat lo = Fin lon2
         \<and> haversineDistance (parseFloat ''53.5228'') (parseFloat ''-1.1285'')
              (parseFloat la) (parseFloat lo) = Fin (great_circle_km lat1 lon1 lat2 lon2)
         \<and> great_circle_km lat1 lon1 lat2 lon2
             = 6371 * (2 * arcsin (sqrt (hav_a lat1 lon1 lat2 lon2)))
         \<and> great_circle_km lat1 lon1 lat2 lon2 \<le> 0.25)
   \<and> sample_stop ''53.5230'' ''-1.1286'' ''2024-05-14T12:30:00+00:00''
     \<in> set (nearbyStopSearches_filter (parseFloat ''53.5228'') (parseFloat ''-1.1285'') (At 1714521600000)
          [sample_stop ''53.5230'' ''-1.1286'' ''2024-05-14T12:30:00+00:00''])
   \<and> (\<exists>loc la lo lat1 lon1 lat2 lon2.
         ss_location (sample_stop ''53.5230'' ''-1.1286'' ''2024-05-14T12:30:00+00:00'') = Some loc
         \<and> latitude loc = Some la \<and> longitude loc = Some lo
         \<and> parseFloat ''53.5228'' = Fin lat1 \<and> parseFloat ''-1.1285'' = Fin lon1
         \<and> parseFloat la = Fin lat2 \<and> parseFloat lo = Fin lon2
         \<and> haversineDistance (parseFloat ''53.5228'') (parseFloat ''-1.1285'')
              (parseFloat la) (parseFloat lo) = Fin (great_circle_km lat1 lon1 lat2 lon2)
         \<and> great_circle_km lat1 lon1 lat2 lon2
             = 6371 * (2 * arcsin (sqrt (hav_a lat1 lon1 lat2 lon2)))
         \<and> great_circle_km lat1 lon1 lat2 lon2 \<le> 0.25)"
proof -
  have m1: "sample_crime ''53.5230'' ''-1.1286'' ''2024-06''
     \<in> set (nearbyCrimes_filter (parseFloat ''53.5228'') (parseFloat ''-1.1285'') (At 1714521600000)
          [sample_crime ''53.5230'' ''-1.1286'' ''2024-06'',
           sample_crime ''53.5300'' ''-1.1400'' ''2024-06'',
           sample_crime ''53.5230'' ''-1.1286'' ''2024-01''])"
    unfolding sample_crimes_filter by simp
  have m2: "sample_stop ''53.5230'' ''-1.1286'' ''2024-05-14T12:30:00+00:00''
     \<in> set (nearbyStopSearches_filter (parseFloat ''53.5228'') (parseFloat ''-1.1285'') (At 1714521600000)
          [sample_stop ''53.5230'' ''-1.1286'' ''2024-05-14T12:30:00+00:00''])"
    unfolding sample_stops_filter by simp
  from m1 m2
    nearby_within_radius [of "sample_crime ''53.5230'' ''-1.1286'' ''2024-06''"
      "parseFloat ''53.5228''" "parseFloat ''-1.1285''" "At 1714521600000"
      "[sample_crime ''53.5230'' ''-1.1286'' ''2024-06'',
        sample_crime ''53.5300'' ''-1.1400'' ''2024-06'',
        sample_crime ''53.5230'' ''-1.1286'' ''2024-01'']"
      "sample_stop ''53.5230'' ''-1.1286'' ''2024-05-14T12:30:00+00:00''"
      "[sample_stop ''53.5230'' ''-1.1286'' ''2024-05-14T12:30:00+00:00'']"]
  show ?thesis by blast
qed

text \<open>
  C2. Every record that the filter stage returns has a valid timestamp that lies in the
  closed interval from the reference moment minus one month to the reference moment plus
  one month, both ends included; the interval is that of \<^verbatim>\<open>subtract(1, 'month')\<close> and
  \<^verbatim>\<open>add(1, 'month')\<close> on the reference moment.
\<close>

theorem nearby_within_window:
  "(c \<in> set (nearbyCrimes_filter refLat refLng t allCrimes) \<longrightarrow>
      (\<exists>lo m hi. subtract_months 1 t = At lo \<and> add_months 1 t = At hi
         \<and> moment_iso (month c) = At m \<and> lo \<le> m \<and> m \<le> hi))
   \<and> (ss \<in> set (nearbyStopSearches_filter refLat refLng t allStopSearches) \<longrightarrow>
      (\<exists>lo m hi. subtract_months 1 t = At lo \<and> add_months 1 t = At hi
         \<and> moment_iso (datetime ss) = At m \<and> lo \<le> m \<and> m \<le> hi))"
proof (intro conjI impI)
  assume "c \<in> set (nearbyCrimes_filter refLat refLng t allCrimes)"
  then have "crime_is_nearby refLat refLng (subtract_months 1 t) (add_months 1 t) c"
    by (simp add: nearbyCrimes_filter_def)
  then have "isBetween (moment_iso (month c)) (subtract_months 1 t) (add_months 1 t)"
    unfolding crime_is_nearby_iff by blast
  then show "\<exists>lo m hi. subtract_months 1 t = At lo \<and> add_months 1 t = At hi
         \<and> moment_iso (month c) = At m \<and> lo \<le> m \<and> m \<le> hi"
    unfolding isBetween_iff by blast
next
  assume "ss \<in> set (nearbyStopSearches_filter refLat refLng t allStopSearches)"
  then have "stop_is_nearby refLat refLng (subtract_months 1 t) (add_months 1 t) ss"
    by (simp add: nearbyStopSearches_filter_def)
  then have "isBetween (moment_iso (datetime ss)) (subtract_months 1 t) (add_months 1 t)"
    unfolding stop_is_nearby_iff by blast
  then show "\<exists>lo m hi. subtract_months 1 t = At lo \<and> add_months 1 t = At hi
         \<and> moment_iso (datetime ss) = At m \<and> lo \<le> m \<and> m \<le> hi"
    unfolding isBetween_iff by blast
qed

theorem nearby_within_window_witness:
  "sample_crime ''53.5230'' ''-1.1286'' ''2024-06''
     \<in> set (nearbyCrimes_filter (parseFloat ''53.5228'') (parseFloat ''-1.1285'') (At 1714521600000)
          [sample_crime ''53.5230'' ''-1.1286'' ''2024-06'',
           sample_crime ''53.5300'' ''-1.1400'' ''2024-06'',
           sample_crime ''53.5230'' ''-1.1286'' ''2024-01''])
   \<and> (\<exists>lo m hi. subtract_months 1 (At 1714521600000) = At lo \<and> add_months 1 (At 1714521600000) = At hi
         \<and> moment_iso (month (sample_crime ''53.5230'' ''-1.1286'' ''2024-06'')) = At m
         \<and> lo \<le> m \<and> m \<le> hi)
   \<and> sample_stop ''53.5230'' ''-1.1286'' ''2024-05-14T12:30:00+00:00''
     \<in> set (nearbyStopSearches_filter (parseFloat ''53.5228'') (parseFloat ''-1.1285'') (At 1714521600000)
          [sample_stop ''53.5230'' ''-1.1286'' ''2024-05-14T12:30:00+00:00''])
   \<and> (\<exists>lo m hi. subtract_months 1 (At 1714521600000) = At lo \<and> add_months 1 (At 1714521600000) = At hi
         \<and> moment_iso (datetime (sample_stop ''53.5230'' ''-1.1286'' ''2024-05-14T12:30:00+00:00'')) = At m
         \<and> lo \<le> m \<and> m \<le> hi)"
proof -
  have m1: "sample_crime ''53.5230'' ''-1.1286'' ''2024-06''
     \<in> set (nearbyCrimes_filter (parseFloat ''53.5228'') (parseFloat ''-1.1285'') (At 1714521600000)
          [sample_crime ''53.5230'' ''-1.1286'' ''2024-06'',
           sample_crime ''53.5300'' ''-1.1400'' ''2024-06'',
           sample_crime ''53.5230'' ''-1.1286'' ''2024-01''])"
    unfolding sample_crimes_filter by simp
  have m2: "sample_stop ''53.5230'' ''-1.1286'' ''2024-05-14T12:30:00+00:00''
     \<in> set (nearbyStopSearches_filter (parseFloat ''53.5228'') (parseFloat ''-1.1285'') (At 1714521600000)
          [sample_stop ''53.5230'' ''-1.1286'' ''2024-05-14T12:30:00+00:00''])"
    unfolding sample_stops_filter by simp
  from m1 m2
    nearby_within_window [of "sample_crime ''53.5230'' ''-1.1286'' ''2024-06''"
      "parseFloat ''53.5228''" "parseFloat ''-1.1285''" "At 1714521600000"
      "[sample_crime ''53.5230'' ''-1.1286'' ''2024-06'',
        sample_crime ''53.5300'' ''-1.1400'' ''2024-06'',
        sample_crime ''53.5230'' ''-1.1286'' ''2024-01'']"
      "sample_stop ''53.5230'' ''-1.1286'' ''2024-05-14T12:30:00+00:00''"
      "[sample_stop ''53.5230'' ''-1.1286'' ''2024-05-14T12:30:00+00:00'']"]
  show ?thesis by blast
qed

text \<open>
  C4. With the reference point (53.5228, -1.1285) and the reference month 2024-05, of the
  three candidates at (53.5230, -1.1286) in 2024-06, at (53.5300, -1.1400) in 2024-06 and at
  (53.5230, -1.1286) in 2024-01 the filter returns the first one only: (53.5230, -1.1286) is
  within 0.25 km and (53.5300, -1.1400) is not, 2024-06 is inside the window of one month
  either side and 2024-01 is not.
\<close>

theorem proximity_example:
  "nearbyCrimes_filter (parseFloat ''53.5228'') (parseFloat ''-1.1285'') (moment_YYYY_MM ''2024-05'')
     [sample_crime ''53.5230'' ''-1.1286'' ''2024-06'',
      sample_crime ''53.5300'' ''-1.1400'' ''2024-06'',
      sample_crime ''53.5230'' ''-1.1286'' ''2024-01'']
   = [sample_crime ''53.5230'' ''-1.1286'' ''2024-06'']
   \<and> js_le (haversineDistance (parseFloat ''53.5228'') (parseFloat ''-1.1285'')
               (parseFloat ''53.5230'') (parseFloat ''-1.1286'')) proximityRadiusKm
   \<and> \<not> js_le (haversineDistance (parseFloat ''53.5228'') (parseFloat ''-1.1285'')
               (parseFloat ''53.5300'') (parseFloat ''-1.1400'')) proximityRadiusKm
   \<and> isBetween (moment_iso ''2024-06'')
        (subtract_months 1 (moment_YYYY_MM ''2024-05'')) (add_months 1 (moment_YYYY_MM ''2024-05''))
   \<and> \<not> isBetween (moment_iso ''2024-01'')
        (subtract_months 1 (moment_YYYY_MM ''2024-05'')) (add_months 1 (moment_YYYY_MM ''2024-05''))"
proof -
  have w: "isBetween (moment_iso ''2024-06'')
        (subtract_months 1 (moment_YYYY_MM ''2024-05'')) (add_months 1 (moment_YYYY_MM ''2024-05''))"
    "\<not> isBetween (moment_iso ''2024-01'')
        (subtract_months 1 (moment_YYYY_MM ''2024-05'')) (add_months 1 (moment_YYYY_MM ''2024-05''))"
    by (simp_all add: window_2024_05 months_2024 isBetween_def isBefore_def isAfter_def)
  have d: "js_le (haversineDistance (parseFloat ''53.5228'') (parseFloat ''-1.1285'')
               (parseFloat ''53.5230'') (parseFloat ''-1.1286'')) proximityRadiusKm"
    "\<not> js_le (haversineDistance (parseFloat ''53.5228'') (parseFloat ''-1.1285'')
               (parseFloat ''53.5300'') (parseFloat ''-1.1400'')) proximityRadiusKm"
    unfolding parse_5228 parse_1285 parse_5230 parse_1286 parse_5300 parse_1400
    by (rule near_distance, rule far_distance)
  have f: "nearbyCrimes_filter (parseFloat ''53.5228'') (parseFloat ''-1.1285'') (moment_YYYY_MM ''2024-05'')
     [sample_crime ''53.5230'' ''-1.1286'' ''2024-06'',
      sample_crime ''53.5300'' ''-1.1400'' ''2024-06'',
      sample_crime ''53.5230'' ''-1.1286'' ''2024-01'']
   = [sample_crime ''53.5230'' ''-1.1286'' ''2024-06'']"
    unfolding window_2024_05(1) by (rule sample_crimes_filter)
  from f d w show ?thesis by blast
qed

lemma not_nearby_without_finite_coordinates:
  assumes "\<not> has_finite_coordinates l" and "coordinate_guard l = Parsed a b"
  shows "\<not> js_le (haversineDistance refLat refLng a b) proximityRadiusKm"
proof -
  from assms(2) obtain loc la lo where l: "l = Some loc" "latitude loc = Some la"
    "longitude loc = Some lo" "a = parseFloat la" "b = parseFloat lo"
    unfolding coordinate_guard_Parsed by blast
  with assms(1) have "\<not> isFinite a \<or> \<not> isFinite b"
    by (simp add: has_finite_coordinates_def parseFloat_field_def)
  then have "haversineDistance refLat refLng a b = NaN" by (rule haversine_nonfinite)
  then show ?thesis by simp
qed


text \<open>
  C3. A record whose location, latitude or longitude is missing, or whose latitude or
  longitude does not parse as a finite number, is not accepted by the filter callback, and
  the filter returns what it returns for the list without that record: nothing is raised
  and nothing takes the place of the coordinates. The coordinates that pass the guard are
  the \<^verbatim>\<open>parseFloat\<close> of the record's own strings and are not \<^verbatim>\<open>NaN\<close>.
\<close>

theorem malformed_coordinates_excluded:
  "(\<not> has_finite_coordinates (location c) \<longrightarrow>
      \<not> crime_is_nearby refLat refLng lo hi c
      \<and> nearbyCrimes_filter refLat refLng t (xs @ c # ys) = nearbyCrimes_filter refLat refLng t (xs @ ys))
   \<and> (\<not> has_finite_coordinates (ss_location ss) \<longrightarrow>
      \<not> stop_is_nearby refLat refLng lo hi ss
      \<and> nearbyStopSearches_filter refLat refLng t (us @ ss # vs)
          = nearbyStopSearches_filter refLat refLng t (us @ vs))
   \<and> (coordinate_guard l = Parsed a b \<longrightarrow>
      (\<exists>loc la lo. l = Some loc \<and> latitude loc = Some la \<and> longitude loc = Some lo
         \<and> a = parseFloat la \<and> b = parseFloat lo \<and> \<not> isNaN a \<and> \<not> isNaN b))"
proof (intro conjI impI)
  assume h: "\<not> has_finite_coordinates (location c)"
  have n: "\<not> crime_is_nearby refLat refLng lo hi c" for lo hi
    unfolding crime_is_nearby_iff using not_nearby_without_finite_coordinates [OF h] by blast
  show "\<not> crime_is_nearby refLat refLng lo hi c" by (rule n)
  show "nearbyCrimes_filter refLat refLng t (xs @ c # ys) = nearbyCrimes_filter refLat refLng t (xs @ ys)"
    by (simp add: nearbyCrimes_filter_def Let_def n)
next
  assume h: "\<not> has_finite_coordinates (ss_location ss)"
  have n: "\<not> stop_is_nearby refLat refLng lo hi ss" for lo hi
    unfolding stop_is_nearby_iff using not_nearby_without_finite_coordinates [OF h] by blast
  show "\<not> stop_is_nearby refLat refLng lo hi ss" by (rule n)
  show "nearbyStopSearches_filter refLat refLng t (us @ ss # vs)
          = nearbyStopSearches_filter refLat refLng t (us @ vs)"
    by (simp add: nearbyStopSearches_filter_def Let_def n)
next
  assume "coordinate_guard l = Parsed a b"
  then show "\<exists>loc la lo. l = Some loc \<and> latitude loc = Some la \<and> longitude loc = Some lo
         \<and> a = parseFloat la \<and> b = parseFloat lo \<and> \<not> isNaN a \<and> \<not> isNaN b"
    unfolding coordinate_guard_Parsed by blast
qed

lemma parse_bad: "parseFloat ''n/a'' = NaN" "parseFloat ''Infinity'' = PInf"
  by (simp_all add: parseFloat_def is_space_def is_digit_def digits_val_def digit_val_def
        scale10_def exponent_part_def to_double_def)

theorem malformed_coordinates_excluded_witness:
  "\<not> has_finite_coordinates (location (sample_crime ''n/a'' ''-1.1286'' ''2024-06''))
   \<and> \<not> crime_is_nearby (parseFloat ''53.5228'') (parseFloat ''-1.1285'') (At 1711929600000) (At 1717200000000)
         (sample_crime ''n/a'' ''-1.1286'' ''2024-06'')
   \<and> nearbyCrimes_filter (parseFloat ''53.5228'') (parseFloat ''-1.1285'') (At 1714521600000)
        ([sample_crime ''53.5230'' ''-1.1286'' ''2024-06''] @ sample_crime ''n/a'' ''-1.1286'' ''2024-06'' # [])
      = nearbyCrimes_filter (parseFloat ''53.5228'') (parseFloat ''-1.1285'') (At 1714521600000)
        ([sample_crime ''53.5230'' ''-1.1286'' ''2024-06''] @ [])
   \<and> \<not> has_finite_coordinates (ss_location (sample_stop ''53.5230'' ''Infinity'' ''2024-05-14T12:30:00+00:00''))
   \<and> \<not> stop_is_nearby (parseFloat ''53.5228'') (parseFloat ''-1.1285'') (At 1711929600000) (At 1717200000000)
         (sample_stop ''53.5230'' ''Infinity'' ''2024-05-14T12:30:00+00:00'')
   \<and> nearbyStopSearches_filter (parseFloat ''53.5228'') (parseFloat ''-1.1285'') (At 1714521600000)
        ([] @ sample_stop ''53.5230'' ''Infinity'' ''2024-05-14T12:30:00+00:00'' # [])
      = nearbyStopSearches_filter (parseFloat ''53.5228'') (parseFloat ''-1.1285'') (At 1714521600000)
        ([] @ [])
   \<and> coordinate_guard (sample_location ''53.5230'' ''Infinity'') = Parsed (Fin 53.5230) PInf
   \<and> (\<exists>loc la lo. sample_location ''53.5230'' ''Infinity'' = Some loc \<and> latitude loc = Some la
         \<and> longitude loc = Some lo \<and> Fin 53.5230 = parseFloat la \<and> PInf = parseFloat lo
         \<and> \<not> isNaN (Fin 53.5230) \<and> \<not> isNaN PInf)"
proof -
  have h1: "\<not> has_finite_coordinates (location (sample_crime ''n/a'' ''-1.1286'' ''2024-06''))"
    by (simp add: has_finite_coordinates_def sample_crime_def sample_location_def
          parseFloat_field_def parse_bad)
  have h2: "\<not> has_finite_coordinates (ss_location (sample_stop ''53.5230'' ''Infinity'' ''2024-05-14T12:30:00+00:00''))"
    by (simp add: has_finite_coordinates_def sample_stop_def sample_location_def
          parseFloat_field_def parse_bad)
  have h3: "coordinate_guard (sample_location ''53.5230'' ''Infinity'') = Parsed (Fin 53.5230) PInf"
    by (simp add: coordinate_guard_def sample_location_def parse_bad parse_5230)
  from h1 h2 h3
    malformed_coordinates_excluded [of "sample_crime ''n/a'' ''-1.1286'' ''2024-06''"
      "parseFloat ''53.5228''" "parseFloat ''-1.1285''" "At 1711929600000" "At 1717200000000"
      "At 1714521600000" "[sample_crime ''53.5230'' ''-1.1286'' ''2024-06'']" "[]"
      "sample_stop ''53.5230'' ''Infinity'' ''2024-05-14T12:30:00+00:00''" "[]" "[]"
      "sample_location ''53.5230'' ''Infinity''" "Fin 53.5230" "PInf"]
  show ?thesis by blast
qed

section \<open>Claims about the entry points\<close>

text \<open>
  C7. Without an API key (\<^verbatim>\<open>ai\<close> is \<^verbatim>\<open>null\<close>) each of the five entry points resolves and
  sends no request: the three text features with the fixed sentence
  \<^verbatim>\<open>AI service is not available (API key missing).\<close>, the two list features with the
  empty array. None of them rejects, whatever the records are.
\<close>

theorem unavailable_without_api_key:
  "ai_client None connect = None
   \<and> ai_client (Some []) connect = None
   \<and> generateIncidentBriefing (ai_client None connect) crime allCrimes allStopSearches sent
     = (Inr ''AI service is not available (API key missing).'', sent)
   \<and> generateStopSearchBriefing (ai_client None connect) stopSearch allCrimes allStopSearches sent
     = (Inr ''AI service is not available (API key missing).'', sent)
   \<and> summarizeCrimeTrends (ai_client None connect) crimes sent
     = (Inr ''AI service is not available (API key missing).'', sent)
   \<and> generateCrimeInsights (ai_client None connect) crimes sent = (Inr (JArr []), sent)
   \<and> generatePredictiveHotspots (ai_client None connect) crimes sent = (Inr (JArr []), sent)"
  by (simp add: ai_client_def generateIncidentBriefing_def generateStopSearchBriefing_def
        summarizeCrimeTrends_def generateCrimeInsights_def generatePredictiveHotspots_def
        resolve_def unavailable_def)

text \<open>
  C9. For fewer than ten crimes \<^verbatim>\<open>generatePredictiveHotspots\<close> resolves with the empty array
  and the list of sent requests is unchanged; so does \<^verbatim>\<open>generateCrimeInsights\<close> for the
  empty list. Both hold with and without a client.
\<close>

theorem empty_result_on_small_input:
  "(length crimes < 10 \<longrightarrow> generatePredictiveHotspots ai crimes sent = (Inr (JArr []), sent))
   \<and> generateCrimeInsights ai [] sent = (Inr (JArr []), sent)"
  by (cases ai) (simp_all add: generatePredictiveHotspots_def generateCrimeInsights_def resolve_def)

theorem empty_result_on_small_input_witness:
  "length [sample_crime ''53.5230'' ''-1.1286'' ''2024-06'',
           sample_crime ''53.5300'' ''-1.1400'' ''2024-06''] < 10
   \<and> generatePredictiveHotspots (Some (\<lambda>sent req. Inr ''[]''))
        [sample_crime ''53.5230'' ''-1.1286'' ''2024-06'',
         sample_crime ''53.5300'' ''-1.1400'' ''2024-06''] [] = (Inr (JArr []), [])
   \<and> generateCrimeInsights (Some (\<lambda>sent req. Inr ''[]'')) [] [] = (Inr (JArr []), [])"
  using empty_result_on_small_input [of
      "[sample_crime ''53.5230'' ''-1.1286'' ''2024-06'',
        sample_crime ''53.5300'' ''-1.1400'' ''2024-06'']"
      "Some (\<lambda>sent req. Inr ''[]'')" "[]"]
  by simp

lemma prompt_sample_eq: "prompt_sample xs = (if xs = [] then None else Some (take 5 xs))"
  by (simp add: prompt_sample_def)

lemma sample_of_prompt_sample:
  "(case prompt_sample xs of None \<Rightarrow> [] | Some ys \<Rightarrow> ys) = take 5 xs"
  by (simp add: prompt_sample_def)

lemma incident_briefing_request:
  assumes "snd (generateIncidentBriefing ai crime allCrimes allStopSearches sent) \<noteq> sent"
  shows "\<exists>loc req. location crime = Some loc
           \<and> snd (generateIncidentBriefing ai crime allCrimes allStopSearches sent) = sent @ [req]
           \<and> crime_sample (contents req)
               = take 5 (nearbyCrimes (parseFloat_field (latitude loc)) (parseFloat_field (longitude loc))
                           (moment_YYYY_MM (month crime)) allCrimes)
           \<and> stop_sample (contents req)
               = take 5 (nearbyStopSearches (parseFloat_field (latitude loc)) (parseFloat_field (longitude loc))
                           (moment_YYYY_MM (month crime)) allStopSearches)"
  using assms
  by (auto simp: generateIncidentBriefing_def resolve_def reject_def generateContent_def Let_def
        sample_of_prompt_sample split: option.splits if_splits)

lemma stop_search_briefing_request:
  assumes "snd (generateStopSearchBriefing ai stopSearch allCrimes allStopSearches sent) \<noteq> sent"
  shows "\<exists>loc req. ss_location stopSearch = Some loc
           \<and> snd (generateStopSearchBriefing ai stopSearch allCrimes allStopSearches sent) = sent @ [req]
           \<and> crime_sample (contents req)
               = take 5 (nearbyCrimes (parseFloat_field (latitude loc)) (parseFloat_field (longitude loc))
                           (moment_iso (datetime stopSearch)) allCrimes)"
  using assms
  by (auto simp: generateStopSearchBriefing_def resolve_def reject_def generateContent_def Let_def
        sample_of_prompt_sample split: option.splits if_splits)


text \<open>
  C8. The filter stage returns a subsequence of its input list, the \<^verbatim>\<open>map\<close> stage keeps
  that order, and a briefing function that sends a request sends exactly one, whose prompt
  shows the first five nearby records (all of them when there are fewer).
\<close>

theorem filter_keeps_input_order:
  "subseq (nearbyCrimes_filter refLat refLng t allCrimes) allCrimes
   \<and> subseq (nearbyStopSearches_filter refLat refLng t allStopSearches) allStopSearches
   \<and> nearbyCrimes refLat refLng t allCrimes
       = map summarise_crime (nearbyCrimes_filter refLat refLng t allCrimes)
   \<and> nearbyStopSearches refLat refLng t allStopSearches
       = map summarise_stop (nearbyStopSearches_filter refLat refLng t allStopSearches)
   \<and> (snd (generateIncidentBriefing ai crime allCrimes allStopSearches sent) \<noteq> sent \<longrightarrow>
        (\<exists>loc req. location crime = Some loc
           \<and> snd (generateIncidentBriefing ai crime allCrimes allStopSearches sent) = sent @ [req]
           \<and> crime_sample (contents req)
               = take 5 (nearbyCrimes (parseFloat_field (latitude loc)) (parseFloat_field (longitude loc))
                           (moment_YYYY_MM (month crime)) allCrimes)
           \<and> stop_sample (contents req)
               = take 5 (nearbyStopSearches (parseFloat_field (latitude loc)) (parseFloat_field (longitude loc))
                           (moment_YYYY_MM (month crime)) allStopSearches)))
   \<and> (snd (generateStopSearchBriefing ai stopSearch allCrimes allStopSearches sent) \<noteq> sent \<longrightarrow>
        (\<exists>loc req. ss_location stopSearch = Some loc
           \<and> snd (generateStopSearchBriefing ai stopSearch allCrimes allStopSearches sent) = sent @ [req]
           \<and> crime_sample (contents req)
               = take 5 (nearbyCrimes (parseFloat_field (latitude loc)) (parseFloat_field (longitude loc))
                           (moment_iso (datetime stopSearch)) allCrimes)))"
proof -
  have "subseq (nearbyCrimes_filter refLat refLng t allCrimes) allCrimes"
    by (simp add: nearbyCrimes_filter_def Let_def)
  moreover have "subseq (nearbyStopSearches_filter refLat refLng t allStopSearches) allStopSearches"
    by (simp add: nearbyStopSearches_filter_def Let_def)
  ultimately show ?thesis
    using incident_briefing_request [of ai crime allCrimes allStopSearches sent]
      stop_search_briefing_request [of ai stopSearch allCrimes allStopSearches sent]
    by (simp add: nearbyCrimes_def nearbyStopSearches_def)
qed

lemma sample_reference_sends:
  "snd (generateIncidentBriefing (Some client) (sample_crime ''53.5228'' ''-1.1285'' ''2024-05'') cs sss [])
     \<noteq> []"
  "snd (generateStopSearchBriefing (Some client)
          (sample_stop ''53.5228'' ''-1.1285'' ''2024-05-14T12:30:00+00:00'') cs sss []) \<noteq> []"
  by (simp_all add: generateIncidentBriefing_def generateStopSearchBriefing_def sample_crime_def
        sample_stop_def sample_location_def parseFloat_field_def parse_5228 parse_1285
        generateContent_def Let_def)

lemma sample_seven_nearby:
  "nearbyCrimes (parseFloat ''53.5228'') (parseFloat ''-1.1285'') (At 1714521600000)
     (replicate 7 (sample_crime ''53.5230'' ''-1.1286'' ''2024-06''))
   = replicate 7 (summarise_crime (sample_crime ''53.5230'' ''-1.1286'' ''2024-06''))"
  by (simp add: nearbyCrimes_def nearbyCrimes_filter_def Let_def window_2024_05 sample_included)

theorem filter_keeps_input_order_witness:
  "snd (generateIncidentBriefing (Some (\<lambda>sent req. Inr ''ok''))
          (sample_crime ''53.5228'' ''-1.1285'' ''2024-05'')
          (replicate 7 (sample_crime ''53.5230'' ''-1.1286'' ''2024-06''))
          [sample_stop ''53.5230'' ''-1.1286'' ''2024-05-14T12:30:00+00:00''] []) \<noteq> []
   \<and> snd (generateStopSearchBriefing (Some (\<lambda>sent req. Inr ''ok''))
          (sample_stop ''53.5228'' ''-1.1285'' ''2024-05-14T12:30:00+00:00'')
          (replicate 7 (sample_crime ''53.5230'' ''-1.1286'' ''2024-06''))
          [sample_stop ''53.5230'' ''-1.1286'' ''2024-05-14T12:30:00+00:00''] []) \<noteq> []
   \<and> (\<exists>req. snd (generateIncidentBriefing (Some (\<lambda>sent req. Inr ''ok''))
          (sample_crime ''53.5228'' ''-1.1285'' ''2024-05'')
          (replicate 7 (sample_crime ''53.5230'' ''-1.1286'' ''2024-06''))
          [sample_stop ''53.5230'' ''-1.1286'' ''2024-05-14T12:30:00+00:00''] []) = [req]
        \<and> crime_sample (contents req)
            = replicate 5 (summarise_crime (sample_crime ''53.5230'' ''-1.1286'' ''2024-06''))
        \<and> stop_sample (contents req)
            = [summarise_stop (sample_stop ''53.5230'' ''-1.1286'' ''2024-05-14T12:30:00+00:00'')])
   \<and> (\<exists>req. snd (generateStopSearchBriefing (Some (\<lambda>sent req. Inr ''ok''))
          (sample_stop ''53.5228'' ''-1.1285'' ''2024-05-14T12:30:00+00:00'')
          (replicate 7 (sample_crime ''53.5230'' ''-1.1286'' ''2024-06''))
          [sample_stop ''53.5230'' ''-1.1286'' ''2024-05-14T12:30:00+00:00''] []) = [req]
        \<and> length (crime_sample (contents req)) \<le> 5)"
proof -
  let ?ai = "Some (\<lambda>sent req. Inr ''ok'') :: GoogleGenAI option"
  let ?cs = "replicate 7 (sample_crime ''53.5230'' ''-1.1286'' ''2024-06'')"
  let ?sss = "[sample_stop ''53.5230'' ''-1.1286'' ''2024-05-14T12:30:00+00:00'']"
  have loc1: "location (sample_crime ''53.5228'' ''-1.1285'' ''2024-05'') = sample_location ''53.5228'' ''-1.1285''"
    and loc2: "ss_location (sample_stop ''53.5228'' ''-1.1285'' ''2024-05-14T12:30:00+00:00'') = sample_location ''53.5228'' ''-1.1285''"
    and mo: "month (sample_crime ''53.5228'' ''-1.1285'' ''2024-05'') = ''2024-05''"
    by (simp_all add: sample_crime_def sample_stop_def)
  have stops: "nearbyStopSearches (parseFloat ''53.5228'') (parseFloat ''-1.1285'') (At 1714521600000) ?sss
      = [summarise_stop (sample_stop ''53.5230'' ''-1.1286'' ''2024-05-14T12:30:00+00:00'')]"
    by (simp add: nearbyStopSearches_def sample_stops_filter)
  from filter_keeps_input_order [of "parseFloat ''53.5228''" "parseFloat ''-1.1285''" "At 1714521600000"
      ?cs ?sss ?ai "sample_crime ''53.5228'' ''-1.1285'' ''2024-05''" "[]"
      "sample_stop ''53.5228'' ''-1.1285'' ''2024-05-14T12:30:00+00:00''"]
    sample_reference_sends [of "\<lambda>sent req. Inr ''ok''" ?cs ?sss]
  show ?thesis
    by (auto simp: loc1 loc2 mo sample_location_def parseFloat_field_def window_2024_05
          sample_seven_nearby stops)
qed

section \<open>Trimming and the fence expression\<close>

lemma strip_split:
  "dropWhile P s
     = rev (dropWhile P (rev (dropWhile P s))) @ rev (takeWhile P (rev (dropWhile P s)))"
proof -
  define d where "d = dropWhile P s"
  define m where "m = rev (dropWhile P (rev d))"
  define b where "b = rev (takeWhile P (rev d))"
  have "rev d = rev b @ rev m" by (simp add: m_def b_def)
  then have "rev (rev d) = rev (rev b @ rev m)" by (rule arg_cong)
  then have "d = m @ b" by simp
  then show ?thesis unfolding m_def b_def d_def .
qed

lemma strip_decomp:
  "\<exists>a b. s = a @ rev (dropWhile P (rev (dropWhile P s))) @ b \<and> list_all P a \<and> list_all P b"
proof -
  define d where "d = dropWhile P s"
  define m where "m = rev (dropWhile P (rev d))"
  define b where "b = rev (takeWhile P (rev d))"
  have dm: "d = m @ b" unfolding m_def b_def d_def by (rule strip_split)
  have 3: "list_all P (takeWhile P s)" by (auto simp: list_all_iff dest: set_takeWhileD)
  have 4: "list_all P b" by (auto simp: b_def list_all_iff dest: set_takeWhileD)
  have "s = takeWhile P s @ d" by (simp add: d_def)
  then have "s = takeWhile P s @ m @ b" using dm by simp
  with 3 4 have "\<exists>a b. s = a @ m @ b \<and> list_all P a \<and> list_all P b" by blast
  then show ?thesis unfolding m_def d_def .
qed

lemma strip_ends:
  assumes "rev (dropWhile P (rev (dropWhile P s))) \<noteq> []"
  shows "\<not> P (hd (rev (dropWhile P (rev (dropWhile P s)))))"
    and "\<not> P (last (rev (dropWhile P (rev (dropWhile P s)))))"
proof -
  define d where "d = dropWhile P s"
  define m where "m = rev (dropWhile P (rev d))"
  define b where "b = rev (takeWhile P (rev d))"
  have mne: "m \<noteq> []" using assms unfolding m_def d_def .
  then have dne: "dropWhile P (rev d) \<noteq> []" by (simp add: m_def)
  then have "\<not> P (hd (dropWhile P (rev d)))" by (rule hd_dropWhile)
  then have l: "\<not> P (last m)" using dne by (simp add: m_def last_rev)
  have dm: "d = m @ b" unfolding m_def b_def d_def by (rule strip_split)
  with mne have "d \<noteq> []" by simp
  then have "dropWhile P s \<noteq> []" unfolding d_def .
  then have "\<not> P (hd (dropWhile P s))" by (rule hd_dropWhile)
  then have "\<not> P (hd d)" unfolding d_def .
  then have h: "\<not> P (hd m)" using dm mne by simp
  show "\<not> P (hd (rev (dropWhile P (rev (dropWhile P s)))))" using h unfolding m_def d_def .
  show "\<not> P (last (rev (dropWhile P (rev (dropWhile P s)))))" using l unfolding m_def d_def .
qed

lemma dropWhile_all_then_not:
  assumes "list_all P a" "m \<noteq> []" "\<not> P (hd m)"
  shows "dropWhile P (a @ m) = m"
proof -
  have "dropWhile P (a @ m) = dropWhile P m"
    using assms(1) by (metis dropWhile_append2 list_all_iff)
  also have "\<dots> = m" using assms(2,3) by (cases m) simp_all
  finally show ?thesis .
qed

lemma strip_unique:
  assumes "list_all P a" "list_all P b" "m \<noteq> []" "\<not> P (hd m)" "\<not> P (last m)"
  shows "rev (dropWhile P (rev (dropWhile P (a @ m @ b)))) = m"
proof -
  have mb: "m @ b \<noteq> []" "\<not> P (hd (m @ b))" using assms(3,4) by simp_all
  have 1: "dropWhile P (a @ m @ b) = m @ b"
    using assms(1) mb by (rule dropWhile_all_then_not)
  have rb: "list_all P (rev b)" using assms(2) by (simp add: list_all_iff)
  have rm: "rev m \<noteq> []" "\<not> P (hd (rev m))" using assms(3,5) by (simp_all add: hd_rev)
  have "dropWhile P (rev b @ rev m) = rev m" using rb rm by (rule dropWhile_all_then_not)
  then have 2: "dropWhile P (rev (m @ b)) = rev m" by simp
  show ?thesis by (simp only: 1 2 rev_rev_ident)
qed

lemma star_greedy_hd: "\<exists>rest. star_greedy P s = dropWhile P s # rest"
  by (induction s) auto

lemma set_star_greedy: "r \<in> set (star_greedy P s) \<Longrightarrow> \<exists>w. s = w @ r \<and> list_all P w"
proof (induction s)
  case Nil
  then show ?case by simp
next
  case (Cons c s)
  show ?case
  proof (cases "r = c # s")
    case True
    then show ?thesis by (intro exI [of _ "[]"]) simp
  next
    case False
    with Cons.prems have pc: "P c" and "r \<in> set (star_greedy P s)"
      by (auto split: if_splits)
    then obtain w where "s = w @ r" "list_all P w" using Cons.IH by blast
    with pc show ?thesis by (intro exI [of _ "c # w"]) simp
  qed
qed

lemma not_space_backtick: "\<not> is_space CHR ''`''" "is_space CHR 0x0A" "\<not> is_word CHR 0x0A"
  by (simp_all add: is_space_def is_word_def)

lemma fence_close_sound:
  assumes "fence_close r \<noteq> []"
  shows "\<exists>w. r = w @ ''```'' \<and> list_all is_space w"
proof -
  from assms obtain r5 r6 where a: "r5 \<in> set (opt_greedy CHR 0x0A r)"
    and b: "r6 \<in> set (star_greedy is_space r5)" and c: "lit ''```'' r6 = [[]]"
    by (auto simp: fence_close_def lit_def split: if_splits)
  from c have r6: "r6 = ''```''"
    by (auto simp: lit_def prefix_def split: if_splits)
  from set_star_greedy [OF b] obtain w where w: "r5 = w @ r6" "list_all is_space w" by blast
  from a have "r = r5 \<or> r = CHR 0x0A # r5"
    by (cases r) (auto simp: opt_greedy_def split: if_splits)
  then show ?thesis
  proof
    assume "r = r5"
    with w r6 show ?thesis by blast
  next
    assume "r = CHR 0x0A # r5"
    with w r6 have "r = (CHR 0x0A # w) @ ''```''" "list_all is_space (CHR 0x0A # w)"
      by (simp_all add: not_space_backtick)
    then show ?thesis by blast
  qed
qed

lemma fence_close_complete:
  assumes "list_all is_space w"
  shows "fence_close (w @ ''```'') \<noteq> []"
proof -
  have a: "w @ ''```'' \<in> set (opt_greedy CHR 0x0A (w @ ''```''))"
    by (simp add: opt_greedy_def)
  have "dropWhile is_space (w @ ''```'') = ''```''"
    using assms by (simp add: dropWhile_append2 list_all_iff not_space_backtick)
  with star_greedy_hd [of is_space "w @ ''```''"]
  have b: "''```'' \<in> set (star_greedy is_space (w @ ''```''))" by auto
  have c: "lit ''```'' ''```'' = [[]]" by (simp add: lit_def)
  show ?thesis
    unfolding fence_close_def using a b c
    by (auto simp: concat_eq_Nil_conv intro!: bexI [OF _ a] bexI [OF _ b])
qed

lemma captures_from_Cons:
  "captures_from (c # s) = map (\<lambda>_. []) (fence_close (c # s)) @ map ((#) c) (captures_from s)"
  by (simp add: captures_from_def map_concat o_def split_def)

lemma captures_from_first:
  assumes "fence_close r \<noteq> []"
  shows "\<exists>more. captures_from r = [] # more"
proof (cases r)
  case Nil
  with assms show ?thesis by (cases "fence_close []") (simp_all add: captures_from_def)
next
  case (Cons c s)
  with assms show ?thesis
    by (cases "fence_close (c # s)") (simp_all add: captures_from_Cons)
qed

lemma captures_from_lazy:
  assumes "\<And>u. u \<noteq> [] \<Longrightarrow> suffix u core \<Longrightarrow> fence_close (u @ rest) = []"
    and "fence_close rest \<noteq> []"
  shows "\<exists>more. captures_from (core @ rest) = core # more"
  using assms(1)
proof (induction core)
  case Nil
  from captures_from_first [OF assms(2)] show ?case by simp
next
  case (Cons c core)
  have "fence_close ((c # core) @ rest) = []"
    by (rule Cons.prems) simp_all
  moreover have "\<exists>more. captures_from (core @ rest) = core # more"
  proof (rule Cons.IH)
    fix u assume "u \<noteq> []" "suffix u core"
    then show "fence_close (u @ rest) = []"
      by (intro Cons.prems) (simp_all add: suffix_Cons)
  qed
  ultimately show ?case by (auto simp: captures_from_Cons)
qed

lemma fence_captures_alt:
  "fence_captures t =
     concat (map (\<lambda>r0.
       concat (map (\<lambda>r1.
         concat (map (\<lambda>r2.
           concat (map captures_from (opt_greedy CHR 0x0A r2)))
           (star_greedy is_space r1)))
         (star_greedy is_word r0)))
       (lit ''```'' t))"
  by (simp add: fence_captures_def captures_from_def [abs_def])

lemma concat_map_first:
  assumes "f x = y # ys"
  shows "\<exists>more. concat (map f (x # xs)) = y # more"
  using assms by simp

lemma fence_captures_fenced:
  assumes tag: "list_all is_word tag"
    and lead: "list_all is_space lead" and trail: "list_all is_space trail"
    and core: "core \<noteq> []" "\<not> is_space (hd core)" "\<not> is_space (last core)"
  shows "\<exists>more. fence_captures (fenced tag (lead @ core @ trail)) = core # more"
proof -
  define rest where "rest = trail @ [CHR 0x0A] @ ''```''"
  have l0: "lit ''```'' (fenced tag (lead @ core @ trail))
              = [tag @ CHR 0x0A # lead @ core @ rest]"
    by (simp add: lit_def fenced_def rest_def)
  have "dropWhile is_word (tag @ CHR 0x0A # lead @ core @ rest) = CHR 0x0A # lead @ core @ rest"
    using tag by (intro dropWhile_all_then_not) (simp_all add: not_space_backtick)
  with star_greedy_hd [of is_word "tag @ CHR 0x0A # lead @ core @ rest"]
  obtain m1 where l1: "star_greedy is_word (tag @ CHR 0x0A # lead @ core @ rest)
      = (CHR 0x0A # lead @ core @ rest) # m1" by auto
  have "dropWhile is_space ((CHR 0x0A # lead) @ core @ rest) = core @ rest"
    using lead core by (intro dropWhile_all_then_not) (simp_all add: not_space_backtick)
  with star_greedy_hd [of is_space "CHR 0x0A # lead @ core @ rest"]
  obtain m2 where l2: "star_greedy is_space (CHR 0x0A # lead @ core @ rest) = (core @ rest) # m2"
    by auto
  have "hd core \<noteq> CHR 0x0A" using core(2) not_space_backtick(2) by auto
  then have l3: "opt_greedy CHR 0x0A (core @ rest) = [core @ rest]"
    using core(1) by (simp add: opt_greedy_def)
  have close: "fence_close rest \<noteq> []"
  proof -
    have "fence_close ((trail @ [CHR 0x0A]) @ ''```'') \<noteq> []"
      using trail by (intro fence_close_complete) (simp add: not_space_backtick)
    then show ?thesis by (simp add: rest_def)
  qed
  have none: "fence_close (u @ rest) = []" if "u \<noteq> []" "suffix u core" for u
  proof (rule ccontr)
    assume "fence_close (u @ rest) \<noteq> []"
    then obtain w where w: "u @ rest = w @ ''```''" "list_all is_space w"
      using fence_close_sound by blast
    then have "w = u @ trail @ [CHR 0x0A]" by (simp add: rest_def)
    with w(2) have "list_all is_space u" by simp
    moreover have "last u = last core" using that by (auto simp: suffix_def)
    ultimately show False using that(1) core(3) by (metis last_in_set list_all_iff)
  qed
  from captures_from_lazy [of core rest, OF none close]
  obtain m3 where l4: "captures_from (core @ rest) = core # m3" by blast
  from concat_map_first [of captures_from, OF l4]
  obtain m4 where l5: "concat (map captures_from (opt_greedy CHR 0x0A (core @ rest))) = core # m4"
    unfolding l3 by blast
  from concat_map_first [of "\<lambda>r2. concat (map captures_from (opt_greedy CHR 0x0A r2))", OF l5]
  obtain m5 where l6: "concat (map (\<lambda>r2. concat (map captures_from (opt_greedy CHR 0x0A r2)))
      (star_greedy is_space (CHR 0x0A # lead @ core @ rest))) = core # m5"
    unfolding l2 by blast
  from concat_map_first [of "\<lambda>r1. concat (map (\<lambda>r2. concat (map captures_from (opt_greedy CHR 0x0A r2)))
      (star_greedy is_space r1))", OF l6]
  obtain m6 where l7: "concat (map (\<lambda>r1. concat (map (\<lambda>r2. concat (map captures_from (opt_greedy CHR 0x0A r2)))
      (star_greedy is_space r1))) (star_greedy is_word (tag @ CHR 0x0A # lead @ core @ rest))) = core # m6"
    unfolding l1 by blast
  from concat_map_first [of "\<lambda>r0. concat (map (\<lambda>r1. concat (map (\<lambda>r2. concat (map captures_from (opt_greedy CHR 0x0A r2)))
      (star_greedy is_space r1))) (star_greedy is_word r0))", OF l7]
  show ?thesis
    unfolding fence_captures_alt l0 by blast
qed

lemma trim_fenced: "trim (fenced tag s) = fenced tag s"
proof -
  have "rev (dropWhile is_space (rev (dropWhile is_space ([] @ fenced tag s @ [])))) = fenced tag s"
    by (rule strip_unique) (simp_all add: fenced_def not_space_backtick)
  then show ?thesis by (simp add: trim_def)
qed

lemma trim_parts:
  assumes "trim s \<noteq> []"
  shows "\<exists>lead trail. s = lead @ trim s @ trail \<and> list_all is_space lead \<and> list_all is_space trail"
    and "\<not> is_space (hd (trim s))" and "\<not> is_space (last (trim s))"
  using strip_decomp [of s is_space] strip_ends [of is_space s] assms
  by (simp_all add: trim_def)

lemma trim_idem:
  assumes "m \<noteq> []" "\<not> is_space (hd m)" "\<not> is_space (last m)"
  shows "trim m = m"
proof -
  have "rev (dropWhile is_space (rev (dropWhile is_space ([] @ m @ [])))) = m"
    using assms by (intro strip_unique) simp_all
  then show ?thesis by (simp add: trim_def)
qed

lemma strip_fence_fenced:
  assumes "list_all is_word tag" "trim s \<noteq> []"
  shows "strip_fence (fenced tag s) = trim s"
proof -
  from trim_parts [OF assms(2)] obtain lead trail where
    s: "s = lead @ trim s @ trail" and sp: "list_all is_space lead" "list_all is_space trail"
    and ends: "\<not> is_space (hd (trim s))" "\<not> is_space (last (trim s))"
    by blast
  from fence_captures_fenced [OF assms(1) sp assms(2) ends]
  obtain more where "fence_captures (fenced tag (lead @ trim s @ trail)) = trim s # more" by blast
  with s have "fence_captures (fenced tag s) = trim s # more" by simp
  then have m: "fence_match (fenced tag s) = Some (trim s)" by (simp add: fence_match_def)
  have "trim (trim s) = trim s" using assms(2) ends by (rule trim_idem)
  with m assms(2) show ?thesis by (simp add: strip_fence_def trim_fenced)
qed

lemma strip_fence_plain:
  assumes "\<not> prefix ''```'' (trim s)"
  shows "strip_fence s = trim s"
  using assms by (simp add: strip_fence_def fence_match_def fence_captures_def lit_def)

section \<open>The JSON parser\<close>

lemma string_body_suffix:
  "parse_string_body x acc = Some (str, r) \<Longrightarrow> \<exists>pre. x = pre @ r \<and> pre \<noteq> []"
proof (induction x acc rule: parse_string_body.induct)
  case (1 acc)
  then show ?case by simp
next
  case (2 c r0 acc)
  show ?case
  proof (cases "c = CHR 0x22")
    case True
    with 2(4) have "r = r0" by simp
    then show ?thesis by (intro exI [of _ "[c]"]) simp
  next
    case nq: False
    show ?thesis
    proof (cases "c = CHR 0x5C")
      case bs: True
      with nq 2(4) obtain e r' where r0: "r0 = e # r'" by (cases r0) auto
      show ?thesis
      proof (cases "e = CHR ''u''")
        case True
        with nq bs r0 2(4) obtain h1 h2 h3 h4 where
          h: "map hex_val (take 4 r') = [Some h1, Some h2, Some h3, Some h4]"
          and p: "parse_string_body (drop 4 r') ((((h1 * 16 + h2) * 16 + h3) * 16 + h4) # acc) = Some (str, r)"
          by (auto split: list.splits option.splits)
        from 2(1) [OF nq bs r0 True h refl refl refl refl refl refl refl refl p] obtain pre where "drop 4 r' = pre @ r" by blast
        then have "r' = take 4 r' @ pre @ r" by (metis append_take_drop_id)
        then have "c # r0 = (c # e # take 4 r' @ pre) @ r" using r0 by simp
        then show ?thesis by blast
      next
        case False
        with nq bs r0 2(4) obtain k where k: "escape_code e = Some k"
          and p: "parse_string_body r' (k # acc) = Some (str, r)"
          by (auto split: option.splits)
        from 2(2) [OF nq bs r0 False k p] obtain pre where "r' = pre @ r" by blast
        then have "c # r0 = (c # e # pre) @ r" using r0 by simp
        then show ?thesis by blast
      qed
    next
      case False
      with nq 2(4) have ge: "\<not> of_char c < (32::nat)"
        and p: "parse_string_body r0 (of_char c # acc) = Some (str, r)"
        by (auto split: if_splits)
      from 2(3) [OF nq False ge p] obtain pre where "r0 = pre @ r" by blast
      then have "c # r0 = (c # pre) @ r" by simp
      then show ?thesis by blast
    qed
  qed
qed


lemma span_digits_append: "span_digits s = (ds, r) \<Longrightarrow> s = ds @ r"
  by (auto simp: span_digits_def)

lemma number_exponent_suffix:
  assumes "number_exponent neg ip fp r = Some (v, r')"
  shows "\<exists>p. r = p @ r'"
proof (cases "r \<noteq> [] \<and> (hd r = CHR ''e'' \<or> hd r = CHR ''E'')")
  case True
  define r3 where "r3 = tl r"
  define r4 where "r4 = (if r3 \<noteq> [] \<and> (hd r3 = CHR ''-'' \<or> hd r3 = CHR ''+'') then tl r3 else r3)"
  obtain ed r5 where sp: "span_digits r4 = (ed, r5)" by (cases "span_digits r4")
  from assms True sp have "r' = r5"
    by (simp add: number_exponent_def Let_def r3_def [symmetric] r4_def [symmetric] split: if_splits)
  moreover have "r = [hd r] @ r3" using True by (cases r) (simp_all add: r3_def)
  moreover have "\<exists>q. r3 = q @ r4" unfolding r4_def
    by (cases r3) (auto intro: exI [of _ "[]"] exI [of _ "[hd r3]"])
  moreover have "r4 = ed @ r5" using sp by (rule span_digits_append)
  ultimately show ?thesis by (metis append.assoc)
next
  case False
  with assms have "r' = r" by (simp add: number_exponent_def)
  then show ?thesis by simp
qed

lemma number_fraction_suffix:
  assumes "number_fraction neg ip r = Some (v, r')"
  shows "\<exists>p. r = p @ r'"
proof (cases "r \<noteq> [] \<and> hd r = CHR ''.''")
  case True
  obtain fp r2 where sp: "span_digits (tl r) = (fp, r2)" by (cases "span_digits (tl r)")
  from assms True sp have "number_exponent neg ip fp r2 = Some (v, r')"
    by (simp add: number_fraction_def split: if_splits)
  then obtain q where "r2 = q @ r'" using number_exponent_suffix by blast
  moreover have "tl r = fp @ r2" using sp by (rule span_digits_append)
  moreover have "r = [hd r] @ tl r" using True by (cases r) simp_all
  ultimately show ?thesis by (metis append.assoc)
next
  case False
  with assms have "number_exponent neg ip [] r = Some (v, r')"
    by (simp add: number_fraction_def)
  then show ?thesis by (rule number_exponent_suffix)
qed

lemma number_suffix:
  assumes "parse_number x = Some (v, r)"
  shows "\<exists>pre. x = pre @ r \<and> pre \<noteq> []"
proof -
  define neg where "neg = (x \<noteq> [] \<and> hd x = CHR ''-'')"
  define u where "u = (if neg then tl x else x)"
  obtain ip r1 where sp: "span_digits u = (ip, r1)" by (cases "span_digits u")
  from assms sp have ipne: "ip \<noteq> []" and nf: "number_fraction neg ip r1 = Some (v, r)"
    by (simp_all add: parse_number_def Let_def neg_def [symmetric] u_def [symmetric] split: if_splits)
  from nf obtain q where q: "r1 = q @ r" using number_fraction_suffix by blast
  have u: "u = ip @ r1" using sp by (rule span_digits_append)
  have "\<exists>p. x = p @ u" unfolding u_def neg_def
    by (cases x) (auto intro: exI [of _ "[]"] exI [of _ "[CHR ''-'']"])
  then obtain p where "x = p @ u" by blast
  with u q have "x = (p @ ip @ q) @ r" by simp
  moreover have "p @ ip @ q \<noteq> []" using ipne by simp
  ultimately show ?thesis by blast
qed

lemma skip_ws_split: "\<exists>w. s = w @ skip_ws s"
  unfolding skip_ws_def by (metis takeWhile_dropWhile_id)

lemma map_parsed_Ok: "map_parsed f p = Ok v r \<longleftrightarrow> (\<exists>u. p = Ok u r \<and> v = f u)"
  by (cases p) (auto simp: map_parsed_def)

lemma parse_value_Suc_cases:
  assumes "parse_value (Suc n) x = Ok v r"
  obtains
    (empty_array) r0 where "x = CHR ''['' # r0" "skip_ws r0 = CHR '']'' # r" "v = JArr []"
  | (array) r0 vs where "x = CHR ''['' # r0" "parse_elements n (skip_ws r0) = Ok vs r" "v = JArr vs"
  | (empty_object) r0 where "x = CHR ''{'' # r0" "skip_ws r0 = CHR ''}'' # r" "v = JObj []"
  | (object) r0 kvs where "x = CHR ''{'' # r0" "parse_members n (skip_ws r0) = Ok kvs r" "v = JObj kvs"
  | (string) r0 str where "x = CHR 0x22 # r0" "parse_string_body r0 [] = Some (str, r)" "v = JStr str"
  | (literal) k where "x \<noteq> []" "r = drop k x" "0 < k" "v = JBool True \<or> v = JBool False \<or> v = JNull"
  | (number) y where "parse_number x = Some (y, r)" "v = JNum y"
proof (cases x)
  case Nil
  with assms show ?thesis by simp
next
  case (Cons c r0)
  consider "c = CHR ''[''" | "c \<noteq> CHR ''[''" "c = CHR ''{''" | "c \<noteq> CHR ''[''" "c \<noteq> CHR ''{''" "c = CHR 0x22"
    | "c \<noteq> CHR ''[''" "c \<noteq> CHR ''{''" "c \<noteq> CHR 0x22" by blast
  then show ?thesis
  proof cases
    case 1
    show ?thesis
    proof (cases "skip_ws r0 \<noteq> [] \<and> hd (skip_ws r0) = CHR '']''")
      case True
      with assms Cons 1 have "v = JArr []" "r = tl (skip_ws r0)" by simp_all
      moreover from True have "skip_ws r0 = CHR '']'' # tl (skip_ws r0)" by (cases "skip_ws r0") simp_all
      ultimately show ?thesis using Cons 1 by (intro empty_array [of r0]) simp_all
    next
      case False
      with assms Cons 1 have "map_parsed JArr (parse_elements n (skip_ws r0)) = Ok v r" by simp
      then obtain vs where "parse_elements n (skip_ws r0) = Ok vs r" "v = JArr vs"
        unfolding map_parsed_Ok by blast
      then show ?thesis using Cons 1 by (intro array [of r0 vs]) simp_all
    qed
  next
    case 2
    show ?thesis
    proof (cases "skip_ws r0 \<noteq> [] \<and> hd (skip_ws r0) = CHR ''}''")
      case True
      with assms Cons 2 have "v = JObj []" "r = tl (skip_ws r0)" by simp_all
      moreover from True have "skip_ws r0 = CHR ''}'' # tl (skip_ws r0)" by (cases "skip_ws r0") simp_all
      ultimately show ?thesis using Cons 2 by (intro empty_object [of r0]) simp_all
    next
      case False
      with assms Cons 2 have "map_parsed JObj (parse_members n (skip_ws r0)) = Ok v r" by simp
      then obtain kvs where "parse_members n (skip_ws r0) = Ok kvs r" "v = JObj kvs"
        unfolding map_parsed_Ok by blast
      then show ?thesis using Cons 2 by (intro object [of r0 kvs]) simp_all
    qed
  next
    case 3
    with assms Cons obtain str where "parse_string_body r0 [] = Some (str, r)" "v = JStr str"
      by (auto split: option.splits)
    then show ?thesis using Cons 3 by (intro string [of r0 str]) simp_all
  next
    case 4
    show ?thesis
    proof (cases "prefix ''true'' x \<or> prefix ''false'' x \<or> prefix ''null'' x")
      case True
      with assms Cons 4 have "r = drop 4 x \<or> r = drop 5 x"
        and "v = JBool True \<or> v = JBool False \<or> v = JNull"
        by (auto split: if_splits)
      then show ?thesis using Cons by (auto intro: literal [of 4] literal [of 5])
    next
      case False
      with assms Cons 4 obtain y where "parse_number x = Some (y, r)" "v = JNum y"
        by (auto split: option.splits)
      then show ?thesis using Cons 4 by (intro number [of y]) simp_all
    qed
  qed
qed

lemma parse_elements_Suc_cases:
  assumes "parse_elements (Suc n) x = Ok vs r"
  obtains
    (last) v r1 where "parse_value n x = Ok v r1" "skip_ws r1 = CHR '']'' # r" "vs = [v]"
  | (more) v r1 r' vs' where "parse_value n x = Ok v r1" "skip_ws r1 = CHR '','' # r'"
      "parse_elements n (skip_ws r') = Ok vs' r" "vs = v # vs'"
proof -
  from assms obtain v r1 where pv: "parse_value n x = Ok v r1"
    by (cases "parse_value n x") simp_all
  with assms obtain c r' where sk: "skip_ws r1 = c # r'"
    by (cases "skip_ws r1") simp_all
  show ?thesis
  proof (cases "c = CHR '']''")
    case True
    with assms pv sk have "vs = [v]" "r = r'" by simp_all
    with pv sk True show ?thesis by (intro last [of v r1]) simp_all
  next
    case False
    with assms pv sk have c: "c = CHR '',''"
      and "map_parsed (\<lambda>vs. v # vs) (parse_elements n (skip_ws r')) = Ok vs r"
      by (simp_all split: if_splits)
    then obtain vs' where "parse_elements n (skip_ws r') = Ok vs' r" "vs = v # vs'"
      unfolding map_parsed_Ok by blast
    with pv sk c show ?thesis by (intro more [of v r1 r' vs']) simp_all
  qed
qed

lemma parse_members_Suc_cases:
  assumes "parse_members (Suc n) x = Ok kvs r"
  obtains
    (last) r0 k r1 r2 v r3 where "x = CHR 0x22 # r0" "parse_string_body r0 [] = Some (k, r1)"
      "skip_ws r1 = CHR '':'' # r2" "parse_value n (skip_ws r2) = Ok v r3"
      "skip_ws r3 = CHR ''}'' # r" "kvs = [(k, v)]"
  | (more) r0 k r1 r2 v r3 r4 kvs' where "x = CHR 0x22 # r0" "parse_string_body r0 [] = Some (k, r1)"
      "skip_ws r1 = CHR '':'' # r2" "parse_value n (skip_ws r2) = Ok v r3"
      "skip_ws r3 = CHR '','' # r4" "parse_members n (skip_ws r4) = Ok kvs' r" "kvs = (k, v) # kvs'"
proof -
  from assms obtain r0 where x: "x = CHR 0x22 # r0"
    by (cases x) (simp_all split: if_splits)
  with assms obtain k r1 where ps: "parse_string_body r0 [] = Some (k, r1)"
    by (cases "parse_string_body r0 []") auto
  with assms x obtain r2 where s1: "skip_ws r1 = CHR '':'' # r2"
    by (cases "skip_ws r1") (simp_all split: if_splits)
  with assms x ps obtain v r3 where pv: "parse_value n (skip_ws r2) = Ok v r3"
    by (cases "parse_value n (skip_ws r2)") simp_all
  with assms x ps s1 obtain d r4 where s3: "skip_ws r3 = d # r4"
    by (cases "skip_ws r3") simp_all
  show ?thesis
  proof (cases "d = CHR ''}''")
    case True
    with assms x ps s1 pv s3 have "kvs = [(k, v)]" "r = r4" by simp_all
    with x ps s1 pv s3 True show ?thesis by (intro last [of r0 k r1 r2 v r3]) simp_all
  next
    case False
    with assms x ps s1 pv s3 have d: "d = CHR '',''"
      and "map_parsed (\<lambda>kvs. (k, v) # kvs) (parse_members n (skip_ws r4)) = Ok kvs r"
      by (simp_all split: if_splits)
    then obtain kvs' where "parse_members n (skip_ws r4) = Ok kvs' r" "kvs = (k, v) # kvs'"
      unfolding map_parsed_Ok by blast
    with x ps s1 pv s3 d show ?thesis by (intro more [of r0 k r1 r2 v r3 r4 kvs']) simp_all
  qed
qed
lemma parser_suffix:
  "(\<forall>x v r. parse_value n x = Ok v r \<longrightarrow> (\<exists>pre. x = pre @ r \<and> pre \<noteq> []))
   \<and> (\<forall>x vs r. parse_elements n x = Ok vs r \<longrightarrow> (\<exists>pre. x = pre @ CHR '']'' # r))
   \<and> (\<forall>x kvs r. parse_members n x = Ok kvs r \<longrightarrow> (\<exists>pre. x = pre @ CHR ''}'' # r))"
proof (induction n)
  case 0
  show ?case by simp
next
  case (Suc n)
  from Suc have IHv: "\<exists>pre. x = pre @ r \<and> pre \<noteq> []" if "parse_value n x = Ok v r" for x v r
    using that by blast
  from Suc have IHe: "\<exists>pre. x = pre @ CHR '']'' # r" if "parse_elements n x = Ok vs r" for x vs r
    using that by blast
  from Suc have IHm: "\<exists>pre. x = pre @ CHR ''}'' # r" if "parse_members n x = Ok kvs r" for x kvs r
    using that by blast
  have V: "\<exists>pre. x = pre @ r \<and> pre \<noteq> []" if "parse_value (Suc n) x = Ok v r" for x v r
    using that
  proof (cases rule: parse_value_Suc_cases)
    case (empty_array r0)
    obtain w where "r0 = w @ skip_ws r0" using skip_ws_split by blast
    with empty_array have "x = (CHR ''['' # w @ '']'') @ r" by simp
    then show ?thesis by blast
  next
    case (array r0 vs)
    obtain w where w: "r0 = w @ skip_ws r0" using skip_ws_split by blast
    from IHe [OF array(2)] obtain pre where "skip_ws r0 = pre @ CHR '']'' # r" by blast
    with w array(1) have "x = (CHR ''['' # w @ pre @ '']'') @ r" by simp
    then show ?thesis by blast
  next
    case (empty_object r0)
    obtain w where "r0 = w @ skip_ws r0" using skip_ws_split by blast
    with empty_object have "x = (CHR ''{'' # w @ ''}'') @ r" by simp
    then show ?thesis by blast
  next
    case (object r0 kvs)
    obtain w where w: "r0 = w @ skip_ws r0" using skip_ws_split by blast
    from IHm [OF object(2)] obtain pre where "skip_ws r0 = pre @ CHR ''}'' # r" by blast
    with w object(1) have "x = (CHR ''{'' # w @ pre @ ''}'') @ r" by simp
    then show ?thesis by blast
  next
    case (string r0 str)
    from string_body_suffix [OF string(2)] obtain pre where "r0 = pre @ r" by blast
    with string(1) have "x = (CHR 0x22 # pre) @ r" by simp
    then show ?thesis by blast
  next
    case (literal k)
    then have "x = take k x @ r" "take k x \<noteq> []" by simp_all
    then show ?thesis by blast
  next
    case (number y)
    then show ?thesis using number_suffix by blast
  qed
  have E: "\<exists>pre. x = pre @ CHR '']'' # r" if "parse_elements (Suc n) x = Ok vs r" for x vs r
    using that
  proof (cases rule: parse_elements_Suc_cases)
    case (last v r1)
    from IHv [OF last(1)] obtain pre where p: "x = pre @ r1" by blast
    obtain w where "r1 = w @ skip_ws r1" using skip_ws_split by blast
    with last(2) p have "x = (pre @ w) @ CHR '']'' # r" by simp
    then show ?thesis by blast
  next
    case (more v r1 r' vs')
    from IHv [OF more(1)] obtain pre where p: "x = pre @ r1" by blast
    obtain w where w: "r1 = w @ skip_ws r1" using skip_ws_split by blast
    obtain w' where w': "r' = w' @ skip_ws r'" using skip_ws_split by blast
    from IHe [OF more(3)] obtain pre' where p': "skip_ws r' = pre' @ CHR '']'' # r" by blast
    have "r1 = w @ CHR '','' # w' @ pre' @ CHR '']'' # r"
      by (subst w, subst more(2), subst w', subst p') simp
    with p have "x = (pre @ w @ CHR '','' # w' @ pre') @ CHR '']'' # r" by simp
    then show ?thesis by blast
  qed
  have M: "\<exists>pre. x = pre @ CHR ''}'' # r" if "parse_members (Suc n) x = Ok kvs r" for x kvs r
    using that
  proof (cases rule: parse_members_Suc_cases)
    case (last r0 k r1 r2 v r3)
    obtain w3 where w3: "r3 = w3 @ skip_ws r3" using skip_ws_split by blast
    from string_body_suffix [OF last(2)] obtain p0 where p0: "r0 = p0 @ r1" by blast
    obtain w1 where w1: "r1 = w1 @ skip_ws r1" using skip_ws_split by blast
    obtain w2 where w2: "r2 = w2 @ skip_ws r2" using skip_ws_split by blast
    from IHv [OF last(4)] obtain pv where pv: "skip_ws r2 = pv @ r3" by blast
    have "r0 = p0 @ w1 @ CHR '':'' # w2 @ pv @ w3 @ CHR ''}'' # r"
      by (subst p0, subst w1, subst last(3), subst w2, subst pv, subst w3, subst last(5)) simp
    with last(1) have "x = (CHR 0x22 # p0 @ w1 @ CHR '':'' # w2 @ pv @ w3) @ CHR ''}'' # r" by simp
    then show ?thesis by blast
  next
    case (more r0 k r1 r2 v r3 r4 kvs')
    obtain w3 where w3: "r3 = w3 @ skip_ws r3" using skip_ws_split by blast
    from string_body_suffix [OF more(2)] obtain p0 where p0: "r0 = p0 @ r1" by blast
    obtain w1 where w1: "r1 = w1 @ skip_ws r1" using skip_ws_split by blast
    obtain w2 where w2: "r2 = w2 @ skip_ws r2" using skip_ws_split by blast
    obtain w4 where w4: "r4 = w4 @ skip_ws r4" using skip_ws_split by blast
    from IHv [OF more(4)] obtain pv where pv: "skip_ws r2 = pv @ r3" by blast
    from IHm [OF more(6)] obtain pm where pm: "skip_ws r4 = pm @ CHR ''}'' # r" by blast
    have "r0 = p0 @ w1 @ CHR '':'' # w2 @ pv @ w3 @ CHR '','' # w4 @ pm @ CHR ''}'' # r"
      by (subst p0, subst w1, subst more(3), subst w2, subst pv, subst w3, subst more(5),
          subst w4, subst pm) simp
    with more(1)
    have "x = (CHR 0x22 # p0 @ w1 @ CHR '':'' # w2 @ pv @ w3 @ CHR '','' # w4 @ pm) @ CHR ''}'' # r"
      by simp
    then show ?thesis by blast
  qed
  from V E M show ?case by blast
qed

lemma json_ws_is_space: "is_json_ws c \<Longrightarrow> is_space c"
  by (auto simp: is_json_ws_def is_space_def)

lemma bracket_not_space:
  "\<not> is_space CHR ''[''" "\<not> is_space CHR '']''" "\<not> is_json_ws CHR ''[''" "\<not> is_json_ws CHR '']''"
  by (simp_all add: is_space_def is_json_ws_def)

lemma array_text_shape:
  assumes "parse_value (Suc n) t = Ok (JArr xs) []"
  shows "t \<noteq> [] \<and> hd t = CHR ''['' \<and> last t = CHR '']''"
  using assms
proof (cases rule: parse_value_Suc_cases)
  case (empty_array r0)
  obtain w where "r0 = w @ skip_ws r0" using skip_ws_split by blast
  with empty_array have "t = (CHR ''['' # w) @ '']''" by simp
  then show ?thesis by (metis hd_append2 last_snoc list.sel(1) list.simps(3) snoc_eq_iff_butlast)
next
  case (array r0 vs)
  obtain w where w: "r0 = w @ skip_ws r0" using skip_ws_split by blast
  from parser_suffix [of n] array(2) obtain pre where "skip_ws r0 = pre @ '']''" by blast
  with w array(1) have "t = (CHR ''['' # w @ pre) @ '']''" by simp
  then show ?thesis by (metis hd_append2 last_snoc list.sel(1) list.simps(3) snoc_eq_iff_butlast)
qed simp_all

lemma JSON_parse_array:
  assumes "JSON_parse s = Some (JArr xs)"
  shows "trim s = json_strip s" and "JSON_parse (trim s) = Some (JArr xs)"
    and "trim s \<noteq> []" and "hd (trim s) = CHR ''[''"
proof -
  define t where "t = json_strip s"
  from assms have "parse_value (Suc (2 * length t)) t = Ok (JArr xs) []"
    by (auto simp: JSON_parse_def Let_def t_def split: parsed.splits if_splits)
  from array_text_shape [OF this] have t: "t \<noteq> []" "hd t = CHR ''[''" "last t = CHR '']''"
    by simp_all
  obtain a b where s: "s = a @ t @ b" and ab: "list_all is_json_ws a" "list_all is_json_ws b"
    using strip_decomp [of s is_json_ws] unfolding t_def json_strip_def skip_ws_def by blast
  from ab have ab': "list_all is_space a" "list_all is_space b"
    by (auto simp: list_all_iff json_ws_is_space)
  have "rev (dropWhile is_space (rev (dropWhile is_space (a @ t @ b)))) = t"
    using ab' t by (intro strip_unique) (simp_all add: bracket_not_space)
  then have tr: "trim s = t" using s by (simp add: trim_def)
  have "rev (dropWhile is_json_ws (rev (dropWhile is_json_ws ([] @ t @ [])))) = t"
    using t by (intro strip_unique) (simp_all add: bracket_not_space)
  then have js: "json_strip t = t" by (simp add: json_strip_def skip_ws_def)
  show "trim s = json_strip s" using tr by (simp add: t_def)
  show "JSON_parse (trim s) = Some (JArr xs)"
    using assms unfolding tr by (simp add: JSON_parse_def js t_def [symmetric])
  show "trim s \<noteq> []" using tr t by simp
  show "hd (trim s) = CHR ''[''" using tr t by simp
qed

lemma strip_fence_array:
  assumes "list_all is_word tag" "JSON_parse s = Some (JArr xs)"
  shows "strip_fence (fenced tag s) = trim s" and "strip_fence s = trim s"
proof -
  note a = JSON_parse_array [OF assms(2)]
  show "strip_fence (fenced tag s) = trim s" using assms(1) a(3) by (rule strip_fence_fenced)
  have "\<not> prefix ''```'' (trim s)"
    using a(3,4) by (cases "trim s") (auto simp: prefix_def)
  then show "strip_fence s = trim s" by (rule strip_fence_plain)
qed

subsection \<open>The bound on nested calls\<close>

lemma map_parsed_OutOfFuel: "map_parsed f p = OutOfFuel \<longleftrightarrow> p = OutOfFuel"
  by (cases p) (simp_all add: map_parsed_def)

lemma skip_ws_length: "length (skip_ws s) \<le> length s"
  by (simp add: skip_ws_def length_dropWhile_le)

lemma parse_value_Suc_OutOfFuel:
  assumes "parse_value (Suc n) x = OutOfFuel"
  shows "\<exists>c r. x = c # r \<and> (parse_elements n (skip_ws r) = OutOfFuel
                               \<or> parse_members n (skip_ws r) = OutOfFuel)"
proof (cases x)
  case Nil
  with assms show ?thesis by simp
next
  case (Cons c r)
  consider "c = CHR ''[''" | "c \<noteq> CHR ''[''" "c = CHR ''{''"
    | "c \<noteq> CHR ''[''" "c \<noteq> CHR ''{''" "c = CHR 0x22"
    | "c \<noteq> CHR ''[''" "c \<noteq> CHR ''{''" "c \<noteq> CHR 0x22" by blast
  then show ?thesis
  proof cases
    case 1
    with assms Cons have "parse_elements n (skip_ws r) = OutOfFuel"
      by (simp add: map_parsed_OutOfFuel split: if_splits)
    with Cons show ?thesis by blast
  next
    case 2
    with assms Cons have "parse_members n (skip_ws r) = OutOfFuel"
      by (simp add: map_parsed_OutOfFuel split: if_splits)
    with Cons show ?thesis by blast
  next
    case 3
    with assms Cons have False
      by (cases "parse_string_body r []") auto
    then show ?thesis ..
  next
    case 4
    with assms Cons have False
      by (cases "parse_number x") (auto split: if_splits)
    then show ?thesis ..
  qed
qed

lemma parse_value_shrinks:
  assumes "parse_value n x = Ok v r"
  shows "length r < length x"
proof -
  from parser_suffix [of n] assms obtain pre where "x = pre @ r" "pre \<noteq> []" by blast
  then show ?thesis by (cases pre) simp_all
qed

lemma string_body_shrinks:
  assumes "parse_string_body x acc = Some (k, r)"
  shows "length r < length x"
proof -
  from string_body_suffix [OF assms] obtain pre where "x = pre @ r" "pre \<noteq> []" by blast
  then show ?thesis by (cases pre) simp_all
qed

lemma fuel_suffices:
  "(\<forall>x. 2 * length x < n \<longrightarrow> parse_value n x \<noteq> OutOfFuel)
   \<and> (\<forall>x. 2 * length x + 1 < n \<longrightarrow> parse_elements n x \<noteq> OutOfFuel)
   \<and> (\<forall>x. 2 * length x + 1 < n \<longrightarrow> parse_members n x \<noteq> OutOfFuel)"
proof (induction n)
  case 0
  show ?case by simp
next
  case (Suc n)
  from Suc have IHv: "parse_value n x \<noteq> OutOfFuel" if "2 * length x < n" for x
    using that by blast
  from Suc have IHe: "parse_elements n x \<noteq> OutOfFuel" if "2 * length x + 1 < n" for x
    using that by blast
  from Suc have IHm: "parse_members n x \<noteq> OutOfFuel" if "2 * length x + 1 < n" for x
    using that by blast
  have V: "parse_value (Suc n) x \<noteq> OutOfFuel" if b: "2 * length x < Suc n" for x
  proof (rule notI)
    assume "parse_value (Suc n) x = OutOfFuel"
    from parse_value_Suc_OutOfFuel [OF this] obtain c r where x: "x = c # r"
      and oof: "parse_elements n (skip_ws r) = OutOfFuel \<or> parse_members n (skip_ws r) = OutOfFuel"
      by blast
    have "length (skip_ws r) \<le> length r" by (rule skip_ws_length)
    with b x have "2 * length (skip_ws r) + 1 < n" by simp
    then have "parse_elements n (skip_ws r) \<noteq> OutOfFuel" "parse_members n (skip_ws r) \<noteq> OutOfFuel"
      by (rule IHe, rule IHm)
    with oof show False by blast
  qed
  have E: "parse_elements (Suc n) x \<noteq> OutOfFuel" if b: "2 * length x + 1 < Suc n" for x
  proof (cases "parse_value n x")
    case OutOfFuel
    moreover from b have "2 * length x < n" by simp
    ultimately show ?thesis using IHv by blast
  next
    case SyntaxError
    then show ?thesis by simp
  next
    case (Ok v r)
    then have lr: "length r < length x" by (rule parse_value_shrinks)
    show ?thesis
    proof (cases "skip_ws r")
      case Nil
      with Ok show ?thesis by simp
    next
      case (Cons c r')
      have "length (skip_ws r') \<le> length r'" by (rule skip_ws_length)
      moreover have "length (skip_ws r) \<le> length r" by (rule skip_ws_length)
      ultimately have "2 * length (skip_ws r') + 1 < n" using Cons lr b by simp
      then have "parse_elements n (skip_ws r') \<noteq> OutOfFuel" by (rule IHe)
      with Ok Cons show ?thesis by (simp add: map_parsed_OutOfFuel)
    qed
  qed
  have M: "parse_members (Suc n) x \<noteq> OutOfFuel" if b: "2 * length x + 1 < Suc n" for x
  proof (rule notI)
    assume oof: "parse_members (Suc n) x = OutOfFuel"
    then obtain r0 where x: "x = CHR 0x22 # r0"
      by (cases x) (simp_all split: if_splits)
    with oof obtain k r1 where ps: "parse_string_body r0 [] = Some (k, r1)"
      by (cases "parse_string_body r0 []") auto
    with oof x obtain r2 where s1: "skip_ws r1 = CHR '':'' # r2"
      by (cases "skip_ws r1") (simp_all split: if_splits)
    have l1: "length r1 < length r0" using ps by (rule string_body_shrinks)
    have l2: "length (skip_ws r1) \<le> length r1" by (rule skip_ws_length)
    have l3: "length (skip_ws r2) \<le> length r2" by (rule skip_ws_length)
    from l1 l2 l3 s1 x b have "2 * length (skip_ws r2) < n" by simp
    then have nv: "parse_value n (skip_ws r2) \<noteq> OutOfFuel" by (rule IHv)
    with oof x ps s1 obtain v r3 where pv: "parse_value n (skip_ws r2) = Ok v r3"
      by (cases "parse_value n (skip_ws r2)") simp_all
    have l4: "length r3 < length (skip_ws r2)" using pv by (rule parse_value_shrinks)
    from oof x ps s1 pv obtain d r4 where s3: "skip_ws r3 = d # r4"
      by (cases "skip_ws r3") simp_all
    have l5: "length (skip_ws r3) \<le> length r3" by (rule skip_ws_length)
    have l6: "length (skip_ws r4) \<le> length r4" by (rule skip_ws_length)
    from l1 l2 l3 l4 l5 l6 s1 s3 x b have "2 * length (skip_ws r4) + 1 < n" by simp
    then have "parse_members n (skip_ws r4) \<noteq> OutOfFuel" by (rule IHm)
    with oof x ps s1 pv s3 show False
      by (simp add: map_parsed_OutOfFuel split: if_splits)
  qed
  from V E M show ?case by blast
qed

text \<open>The bound that \<open>JSON_parse\<close> supplies is never exhausted: \<open>None\<close> is a syntax error.\<close>

lemma JSON_parse_fuel:
  "parse_value (2 * length (json_strip s) + 1) (json_strip s) \<noteq> OutOfFuel"
  using fuel_suffices [of "2 * length (json_strip s) + 1"] by simp

lemma JSON_parse_None_iff:
  "JSON_parse s = None \<longleftrightarrow>
     parse_value (2 * length (json_strip s) + 1) (json_strip s) = SyntaxError
     \<or> (\<exists>v r. parse_value (2 * length (json_strip s) + 1) (json_strip s) = Ok v r \<and> r \<noteq> [])"
  using JSON_parse_fuel [of s]
  by (cases "parse_value (2 * length (json_strip s) + 1) (json_strip s)")
     (auto simp: JSON_parse_def Let_def)

subsection \<open>Evaluating the parser on a literal text\<close>

lemmas parse_numeral =
  parse_value.simps(2) [of "pred_numeral k" for k, folded numeral_eq_Suc]
  parse_elements.simps(2) [of "pred_numeral k" for k, folded numeral_eq_Suc]
  parse_members.simps(2) [of "pred_numeral k" for k, folded numeral_eq_Suc]

lemmas json_eval = JSON_parse_def json_strip_def skip_ws_def is_json_ws_def Let_def map_parsed_def
  parse_number_def number_fraction_def number_exponent_def number_value_def span_digits_def
  is_digit_def digits_val_def digit_val_def scale10_def to_double_def hex_val_def escape_code_def
  parse_numeral

lemma sample_hotspots_parse:
  "JSON_parse sample_hotspots =
     Some (JArr [sample_hotspot ''High Street'' 53.525 (-1.130) ''Shoplifting'' ''Retail theft'',
                 sample_hotspot ''Market Place'' 53.523 (-1.134) ''Burglary'' ''Repeats'',
                 sample_hotspot ''Station Road'' 53.521 (-1.139) ''Vehicle crime'' ''Car park''])"
  by (simp add: json_eval sample_hotspots_def sample_hotspot_def code_units_def)

lemma sample_refusal_parse: "JSON_parse (strip_fence ''Sorry, no insights.'') = None"
  by (simp add: json_eval strip_fence_def trim_def is_space_def fence_match_def
        fence_captures_def lit_def)

lemma word_json: "list_all is_word ''json''"
  by (simp add: is_word_def)

section \<open>Claims about \<^verbatim>\<open>parseJsonResponse\<close>\<close>

text \<open>
  C5. Let \<open>s\<close> be a text that \<^verbatim>\<open>JSON.parse\<close> reads as an array. Put between code fences,
  with a language tag of word characters or with none, \<open>s\<close> gives the same result in
  \<^verbatim>\<open>parseJsonResponse\<close> as \<open>s\<close> alone, and that result is the array of \<open>s\<close>, so it has
  as many elements.
\<close>

theorem fenced_array_parses_alike:
  assumes "list_all is_word tag" and "JSON_parse s = Some (JArr xs)"
  shows "parseJsonResponse (fenced tag s) = parseJsonResponse s
         \<and> parseJsonResponse s = Inr (JArr xs)
         \<and> (\<exists>ys. parseJsonResponse (fenced tag s) = Inr (JArr ys) \<and> length ys = length xs)"
  using strip_fence_array [OF assms] JSON_parse_array(2) [OF assms(2)]
  by (simp add: parseJsonResponse_def)

theorem fenced_array_parses_alike_witness:
  "list_all is_word ''json''
   \<and> JSON_parse sample_hotspots = Some (JArr
        [sample_hotspot ''High Street'' 53.525 (-1.130) ''Shoplifting'' ''Retail theft'',
         sample_hotspot ''Market Place'' 53.523 (-1.134) ''Burglary'' ''Repeats'',
         sample_hotspot ''Station Road'' 53.521 (-1.139) ''Vehicle crime'' ''Car park''])
   \<and> parseJsonResponse (fenced ''json'' sample_hotspots) = parseJsonResponse sample_hotspots
   \<and> parseJsonResponse (fenced [] sample_hotspots) = parseJsonResponse sample_hotspots
   \<and> parseJsonResponse sample_hotspots = Inr (JArr
        [sample_hotspot ''High Street'' 53.525 (-1.130) ''Shoplifting'' ''Retail theft'',
         sample_hotspot ''Market Place'' 53.523 (-1.134) ''Burglary'' ''Repeats'',
         sample_hotspot ''Station Road'' 53.521 (-1.139) ''Vehicle crime'' ''Car park''])
   \<and> (\<exists>ys. parseJsonResponse (fenced ''json'' sample_hotspots) = Inr (JArr ys) \<and> length ys = 3)"
proof -
  have e: "list_all is_word []" by simp
  from fenced_array_parses_alike [OF word_json sample_hotspots_parse]
    fenced_array_parses_alike [OF e sample_hotspots_parse]
    word_json sample_hotspots_parse
  show ?thesis by simp
qed

lemma handle_rejection:
  assumes "apiCall sent = (Inl e, sent')"
  shows "handleAIFeature k apiCall onSuccess (st, sent)
           = (modalReducer (modalReducer st (OPEN_MODAL k None))
                (SET_CONTENT (ErrorDiv (error_message e))), sent')"
  using assms by (simp add: handleAIFeature_def)

lemma then_parse_failure:
  assumes "call sent = (Inr text, sent')" "JSON_parse (strip_fence text) = None"
  shows "then_parse call sent = (Inl (Error ''Failed to parse AI response as JSON.''), sent')"
  using assms by (simp add: then_parse_def parseJsonResponse_def)

lemma insights_sends:
  assumes "crimes \<noteq> []"
  shows "generateCrimeInsights (Some client) crimes
           = then_parse (generateContent client (insights_request crimes))"
  using assms by (simp add: generateCrimeInsights_def insights_request_def)

lemma hotspots_sends:
  assumes "10 \<le> length crimes" "map_throwing hotspot_row_of crimes = Inr rows"
  shows "generatePredictiveHotspots (Some client) crimes
           = then_parse (generateContent client (hotspots_request rows))"
  using assms by (simp add: generatePredictiveHotspots_def hotspots_request_def)

lemma map_throwing_replicate:
  assumes "f x = Inr y"
  shows "map_throwing f (replicate n x) = Inr (replicate n y)"
  using assms by (induction n) simp_all


text \<open>
  C6. When the text left after the optional fence stripping is not JSON,
  \<^verbatim>\<open>parseJsonResponse\<close> throws the error with the message
  \<^verbatim>\<open>Failed to parse AI response as JSON.\<close>; when it is JSON, the parsed value is returned.
  \<^verbatim>\<open>handleAIFeature\<close> puts the message of a rejected call into the modal as the red error
  node and ends the loading state. For both list features a response that is not JSON ends
  in that state after exactly one request: the request is not sent again.
\<close>

theorem parse_failure_is_shown:
  "(JSON_parse (strip_fence reply) = None \<longrightarrow>
      parseJsonResponse reply = Inl (Error ''Failed to parse AI response as JSON.''))
   \<and> (JSON_parse (strip_fence reply) = Some v \<longrightarrow> parseJsonResponse reply = Inr v)
   \<and> (apiCall sent = (Inl e, sent') \<longrightarrow>
        handleAIFeature k apiCall onSuccess (st, sent)
          = (modalReducer (modalReducer st (OPEN_MODAL k None))
               (SET_CONTENT (ErrorDiv (error_message e))), sent'))
   \<and> (crimes \<noteq> [] \<and> client sent (insights_request crimes) = Inr reply
        \<and> JSON_parse (strip_fence reply) = None \<longrightarrow>
        handleAIFeature Insights (generateCrimeInsights (Some client) crimes) render (st, sent)
          = (st\<lparr> modal := set_flag Insights (modal initialModalState), isLoading := False,
                  content := ErrorDiv ''Failed to parse AI response as JSON.'' \<rparr>,
             sent @ [insights_request crimes]))
   \<and> (10 \<le> length crimes \<and> map_throwing hotspot_row_of crimes = Inr rows
        \<and> client sent (hotspots_request rows) = Inr reply
        \<and> JSON_parse (strip_fence reply) = None \<longrightarrow>
        handleAIFeature Predictive (generatePredictiveHotspots (Some client) crimes) render (st, sent)
          = (st\<lparr> modal := set_flag Predictive (modal initialModalState), isLoading := False,
                  content := ErrorDiv ''Failed to parse AI response as JSON.'' \<rparr>,
             sent @ [hotspots_request rows]))"
proof (intro conjI impI)
  assume "JSON_parse (strip_fence reply) = None"
  then show "parseJsonResponse reply = Inl (Error ''Failed to parse AI response as JSON.'')"
    by (simp add: parseJsonResponse_def)
next
  assume "JSON_parse (strip_fence reply) = Some v"
  then show "parseJsonResponse reply = Inr v" by (simp add: parseJsonResponse_def)
next
  assume "apiCall sent = (Inl e, sent')"
  then show "handleAIFeature k apiCall onSuccess (st, sent)
          = (modalReducer (modalReducer st (OPEN_MODAL k None))
               (SET_CONTENT (ErrorDiv (error_message e))), sent')"
    by (rule handle_rejection)
next
  assume a: "crimes \<noteq> [] \<and> client sent (insights_request crimes) = Inr reply
        \<and> JSON_parse (strip_fence reply) = None"
  then have "generateContent client (insights_request crimes) sent
      = (Inr reply, sent @ [insights_request crimes])"
    by (simp add: generateContent_def)
  with a have "generateCrimeInsights (Some client) crimes sent
      = (Inl (Error ''Failed to parse AI response as JSON.''), sent @ [insights_request crimes])"
    by (simp add: insights_sends then_parse_failure)
  from handle_rejection [where apiCall = "generateCrimeInsights (Some client) crimes"
      and sent = sent, OF this]
  show "handleAIFeature Insights (generateCrimeInsights (Some client) crimes) render (st, sent)
          = (st\<lparr> modal := set_flag Insights (modal initialModalState), isLoading := False,
                  content := ErrorDiv ''Failed to parse AI response as JSON.'' \<rparr>,
             sent @ [insights_request crimes])"
    by simp
next
  assume a: "10 \<le> length crimes \<and> map_throwing hotspot_row_of crimes = Inr rows
        \<and> client sent (hotspots_request rows) = Inr reply
        \<and> JSON_parse (strip_fence reply) = None"
  then have "generateContent client (hotspots_request rows) sent
      = (Inr reply, sent @ [hotspots_request rows])"
    by (simp add: generateContent_def)
  with a have "generatePredictiveHotspots (Some client) crimes sent
      = (Inl (Error ''Failed to parse AI response as JSON.''), sent @ [hotspots_request rows])"
    by (simp add: hotspots_sends then_parse_failure)
  from handle_rejection [where apiCall = "generatePredictiveHotspots (Some client) crimes"
      and sent = sent, OF this]
  show "handleAIFeature Predictive (generatePredictiveHotspots (Some client) crimes) render (st, sent)
          = (st\<lparr> modal := set_flag Predictive (modal initialModalState), isLoading := False,
                  content := ErrorDiv ''Failed to parse AI response as JSON.'' \<rparr>,
             sent @ [hotspots_request rows])"
    by simp
qed

lemma sample_hotspot_rows:
  "\<exists>rows. map_throwing hotspot_row_of (replicate 10 (sample_crime ''53.5230'' ''-1.1286'' ''2024-06''))
            = Inr rows \<and> length rows = 10"
proof -
  obtain row where "hotspot_row_of (sample_crime ''53.5230'' ''-1.1286'' ''2024-06'') = Inr row"
    by (simp add: hotspot_row_of_def sample_crime_def sample_location_def)
  from map_throwing_replicate [where f = hotspot_row_of and n = 10, OF this]
  show ?thesis by simp
qed

theorem parse_failure_is_shown_witness:
  "JSON_parse (strip_fence ''Sorry, no insights.'') = None
   \<and> parseJsonResponse ''Sorry, no insights.'' = Inl (Error ''Failed to parse AI response as JSON.'')
   \<and> JSON_parse (strip_fence sample_hotspots) = Some (JArr
        [sample_hotspot ''High Street'' 53.525 (-1.130) ''Shoplifting'' ''Retail theft'',
         sample_hotspot ''Market Place'' 53.523 (-1.134) ''Burglary'' ''Repeats'',
         sample_hotspot ''Station Road'' 53.521 (-1.139) ''Vehicle crime'' ''Car park''])
   \<and> parseJsonResponse sample_hotspots = Inr (JArr
        [sample_hotspot ''High Street'' 53.525 (-1.130) ''Shoplifting'' ''Retail theft'',
         sample_hotspot ''Market Place'' 53.523 (-1.134) ''Burglary'' ''Repeats'',
         sample_hotspot ''Station Road'' 53.521 (-1.139) ''Vehicle crime'' ''Car park''])
   \<and> reject (NonError ''timeout'') [] = (Inl (NonError ''timeout''), [])
   \<and> handleAIFeature Trend (reject (NonError ''timeout'')) (\<lambda>text. Inr (Text text))
        (initialModalState, [])
      = (modalReducer (modalReducer initialModalState (OPEN_MODAL Trend None))
           (SET_CONTENT (ErrorDiv (error_message (NonError ''timeout'')))), [])
   \<and> [sample_crime ''53.5230'' ''-1.1286'' ''2024-06''] \<noteq> []
   \<and> handleAIFeature Insights
        (generateCrimeInsights (Some (\<lambda>sent req. Inr ''Sorry, no insights.''))
           [sample_crime ''53.5230'' ''-1.1286'' ''2024-06''])
        (\<lambda>v. Inr (Text ''ok'')) (initialModalState, [])
      = (initialModalState\<lparr> modal := set_flag Insights (modal initialModalState), isLoading := False,
            content := ErrorDiv ''Failed to parse AI response as JSON.'' \<rparr>,
         [] @ [insights_request [sample_crime ''53.5230'' ''-1.1286'' ''2024-06'']])
   \<and> (\<exists>rows. 10 \<le> length (replicate 10 (sample_crime ''53.5230'' ''-1.1286'' ''2024-06''))
        \<and> map_throwing hotspot_row_of (replicate 10 (sample_crime ''53.5230'' ''-1.1286'' ''2024-06''))
            = Inr rows
        \<and> handleAIFeature Predictive
             (generatePredictiveHotspots (Some (\<lambda>sent req. Inr ''Sorry, no insights.''))
                (replicate 10 (sample_crime ''53.5230'' ''-1.1286'' ''2024-06'')))
             (\<lambda>v. Inr (Text ''ok'')) (initialModalState, [])
           = (initialModalState\<lparr> modal := set_flag Predictive (modal initialModalState),
                 isLoading := False,
                 content := ErrorDiv ''Failed to parse AI response as JSON.'' \<rparr>,
              [] @ [hotspots_request rows]))"
proof -
  let ?c = "sample_crime ''53.5230'' ''-1.1286'' ''2024-06''"
  let ?client = "\<lambda>sent req. Inr ''Sorry, no insights.'' :: js_error + string"
  let ?ok = "\<lambda>v :: json. Inr (Text ''ok'') :: js_error + react_node"
  have plain: "strip_fence sample_hotspots = trim sample_hotspots"
    using strip_fence_array(2) [OF word_json sample_hotspots_parse] .
  have good: "JSON_parse (strip_fence sample_hotspots) = Some (JArr
        [sample_hotspot ''High Street'' 53.525 (-1.130) ''Shoplifting'' ''Retail theft'',
         sample_hotspot ''Market Place'' 53.523 (-1.134) ''Burglary'' ''Repeats'',
         sample_hotspot ''Station Road'' 53.521 (-1.139) ''Vehicle crime'' ''Car park''])"
    unfolding plain by (rule JSON_parse_array(2) [OF sample_hotspots_parse])
  obtain rows where rows: "map_throwing hotspot_row_of (replicate 10 ?c) = Inr rows"
    using sample_hotspot_rows by blast
  have rej: "reject (NonError ''timeout'') [] = (Inl (NonError ''timeout''), [])"
    by (simp add: reject_def)
  note t1 = parse_failure_is_shown [where reply = "''Sorry, no insights.''"
      and apiCall = "reject (NonError ''timeout'')" and sent = "[]" and e = "NonError ''timeout''"
      and sent' = "[]" and k = Trend and onSuccess = "\<lambda>text. Inr (Text text)"
      and st = initialModalState and crimes = "[?c]" and client = "?client" and render = "?ok"]
  note t2 = parse_failure_is_shown [where reply = sample_hotspots and v = "JArr
        [sample_hotspot ''High Street'' 53.525 (-1.130) ''Shoplifting'' ''Retail theft'',
         sample_hotspot ''Market Place'' 53.523 (-1.134) ''Burglary'' ''Repeats'',
         sample_hotspot ''Station Road'' 53.521 (-1.139) ''Vehicle crime'' ''Car park'']"]
  note t3 = parse_failure_is_shown [where reply = "''Sorry, no insights.''"
      and sent = "[]" and st = initialModalState and crimes = "replicate 10 ?c"
      and client = "?client" and render = "?ok" and rows = rows]
  note c2 = t1 [THEN conjunct1, rule_format, OF sample_refusal_parse]
  note c4 = t2 [THEN conjunct2, THEN conjunct1, rule_format, OF good]
  note c6 = t1 [THEN conjunct2, THEN conjunct2, THEN conjunct1, rule_format, OF rej]
  have c7: "[?c] \<noteq> []" by simp
  have h8: "[?c] \<noteq> [] \<and> ?client [] (insights_request [?c]) = Inr ''Sorry, no insights.''
      \<and> JSON_parse (strip_fence ''Sorry, no insights.'') = None"
    using sample_refusal_parse by simp
  note c8 = t1 [THEN conjunct2, THEN conjunct2, THEN conjunct2, THEN conjunct1, rule_format, OF h8]
  have len: "10 \<le> length (replicate 10 ?c)" by simp
  have h9: "10 \<le> length (replicate 10 ?c) \<and> map_throwing hotspot_row_of (replicate 10 ?c) = Inr rows
      \<and> ?client [] (hotspots_request rows) = Inr ''Sorry, no insights.''
      \<and> JSON_parse (strip_fence ''Sorry, no insights.'') = None"
    using sample_refusal_parse rows by simp
  note c9 = t3 [THEN conjunct2, THEN conjunct2, THEN conjunct2, THEN conjunct2, rule_format, OF h9]
  from sample_refusal_parse c2 good c4 rej c6 c7 c8 len rows c9 show ?thesis by blast
qed

end
